theory Spec2Isabelle
  imports Main
begin

section \<open>Reduction primitive expressions (cinn/hlir/pe/reduction.cc)\<close>

subsection \<open>Failures\<close>

text \<open>
  Every \<^verbatim>\<open>CHECK\<close> of the source aborts the construction; the model returns the
  failure as a value. \<open>OutOfRange\<close> stands for the reads outside a vector that C++
  leaves undefined (\<^verbatim>\<open>v[i]\<close> with \<open>i\<close> not below \<^verbatim>\<open>v.size()\<close>, an iterator
  range that leaves the vector).
\<close>

datatype error =
    InvalidRank
  | InvalidAxis
  | ShapeMismatch
  | NonConstantWarpDimension
  | OutOfRange

subsection \<open>GetRealAxes\<close>

text \<open>
  \<^verbatim>\<open>
  void GetRealAxes(int ndim, const std::vector<int>& axes, std::vector<int>* real_axes) {
    CHECK(real_axes);
    if (axes.empty()) {
      for (int i = 0; i < ndim; ++i) real_axes->push_back(i);
    } else {
      for (auto axis : axes) {
        if (axis < 0) axis += ndim;
        CHECK_LE(axis, ndim) << "exceeds the maximum dimension: " << ndim << std::endl;
        CHECK_GE(axis, 0);
        real_axes->push_back(axis);
      }
      real_axes->resize(std::unique(real_axes->begin(), real_axes->end()) - real_axes->begin());
      std::sort(real_axes->begin(), real_axes->end());
    }
  }
  \<close>
  The output vector is passed in and returned updated; \<^verbatim>\<open>CHECK(real_axes)\<close> tests
  the pointer to it, which the model always has. \<^verbatim>\<open>int\<close> values are modelled
  as \<open>int\<close>: \<^verbatim>\<open>axis += ndim\<close> runs only for a negative \<^verbatim>\<open>axis\<close> and the rank
  \<^verbatim>\<open>ndim\<close> of a tensor is not negative, so the sum stays between the two and cannot
  wrap; \<^verbatim>\<open>++i\<close> runs only below \<^verbatim>\<open>ndim\<close>. \<^verbatim>\<open>std::unique\<close> drops an element equal
  to its predecessor (\<open>remdups_adj\<close>), and it runs before \<^verbatim>\<open>std::sort\<close>.
\<close>

function push_all_dims :: "int \<Rightarrow> int \<Rightarrow> int list \<Rightarrow> int list" where
  "push_all_dims i ndim real_axes =
     (if i < ndim then push_all_dims (i + 1) ndim (real_axes @ [i]) else real_axes)"
  by pat_completeness auto
termination
  by (relation "measure (\<lambda>(i, ndim, real_axes). nat (ndim - i))") auto

declare push_all_dims.simps [simp del]

definition adjust_axis :: "int \<Rightarrow> int \<Rightarrow> int" where
  "adjust_axis ndim axis = (if axis < 0 then axis + ndim else axis)"

fun push_axes :: "int \<Rightarrow> int list \<Rightarrow> int list \<Rightarrow> error + int list" where
  "push_axes ndim [] real_axes = Inr real_axes"
| "push_axes ndim (axis # axes) real_axes =
     (if \<not> adjust_axis ndim axis \<le> ndim then Inl InvalidAxis
      else if \<not> adjust_axis ndim axis \<ge> 0 then Inl InvalidAxis
      else push_axes ndim axes (real_axes @ [adjust_axis ndim axis]))"

definition GetRealAxes :: "int \<Rightarrow> int list \<Rightarrow> int list \<Rightarrow> error + int list" where
  "GetRealAxes ndim axes real_axes =
     (if axes = [] then Inr (push_all_dims 0 ndim real_axes)
      else (case push_axes ndim axes real_axes of
              Inl e \<Rightarrow> Inl e
            | Inr pushed \<Rightarrow> Inr (sort (remdups_adj pushed))))"

subsection \<open>Symbolic expressions and tensors\<close>

text \<open>
  Modelled from the spec: the element types and the expression and tensor classes
  (\<^verbatim>\<open>cinn/ir\<close>), which are declared outside the files shown. The element types
  \<^verbatim>\<open>Int(bits)\<close>, \<^verbatim>\<open>UInt(bits)\<close>, \<^verbatim>\<open>Float(bits)\<close> and \<^verbatim>\<open>Bool()\<close> are \<open>IntT\<close>,
  \<open>UIntT\<close>, \<open>FloatT\<close> and \<open>BoolT\<close>. The reduction builders only construct
  expression nodes, and the model keeps the nodes they construct, as constructors:
  integer constants with their type, variables with their bounds, sums and products,
  calls, tensors used as values, tensor reads and reductions. A tensor is a symbolic
  object with a name, a shape (a sequence of size expressions), an element type and,
  when it is computed, the expression of its element. An \<^verbatim>\<open>Expr\<close> can be undefined
  (a null reference): where the source can pass one, the model has an
  \<open>Expr option\<close>.
\<close>

datatype Type = IntT nat | UIntT nat | FloatT nat | BoolT

datatype ReduceType = kSum | kMul | kMax | kMin

datatype Expr =
    IntImm Type int
  | VarE Var
  | Add Expr Expr
  | Mul Expr Expr
  | Call Type string "Expr list"
  | TensorE Tensor
  | Load Tensor "Expr list"
  | ir_Reduce ReduceType "Expr option" Expr "Var list"
and Var =
    Var (lower_bound: "Expr option") (upper_bound: "Expr option") (var_name: string)
and Tensor =
    Tensor (tensor_name: string) (shape: "Expr list") (tensor_type: Type) (body: "Expr option")

text \<open>\<^verbatim>\<open>Expr(int32_t x)\<close>: a constant of type \<^verbatim>\<open>Int(32)\<close>.\<close>

definition Expr_int :: "int \<Rightarrow> Expr" where
  "Expr_int x = IntImm (IntT 32) x"

text \<open>
  Modelled from the spec: \<^verbatim>\<open>common::make_one()\<close>, which is not among the files shown, is
  the constant size-1 expression.
\<close>

definition make_one :: Expr where
  "make_one = Expr_int 1"

text \<open>
  Modelled from the spec: \<^verbatim>\<open>common::make_const(type, v)\<close>, which is not among the files
  shown, is the constant \<open>v\<close> in the given element type.
\<close>

definition make_const :: "Type \<Rightarrow> int \<Rightarrow> Expr" where
  "make_const t v = IntImm t v"

text \<open>
  Modelled from the spec: \<^verbatim>\<open>Expr::as_int32()\<close>, which is not among the files shown, reads
  a compile-time integer constant; a size that is not one is a
  \<open>NonConstantWarpDimension\<close>.
\<close>

fun as_int32 :: "Expr \<Rightarrow> error + int" where
  "as_int32 (IntImm t v) = (if t = IntT 32 then Inr v else Inl NonConstantWarpDimension)"
| "as_int32 e = Inl NonConstantWarpDimension"

text \<open>
  Modelled from the spec: the element type of an expression (\<^verbatim>\<open>Expr::type()\<close>, not
  among the files shown), as far as the nodes above determine it: a read has the
  tensor's element type, a reduction its body's, a call the type it was built with.
\<close>

fun Expr_type :: "Expr \<Rightarrow> Type" where
  "Expr_type (IntImm t v) = t"
| "Expr_type (VarE v) = IntT 32"
| "Expr_type (Add a b) = Expr_type a"
| "Expr_type (Mul a b) = Expr_type a"
| "Expr_type (Call t f args) = t"
| "Expr_type (TensorE T) = tensor_type T"
| "Expr_type (Load T indices) = tensor_type T"
| "Expr_type (ir_Reduce rt init e axes) = Expr_type e"

text \<open>
  Modelled from the spec: the accumulation functions \<^verbatim>\<open>lang::ReduceSum\<close>,
  \<^verbatim>\<open>lang::ReduceMul\<close>, \<^verbatim>\<open>lang::ReduceMax\<close> and \<^verbatim>\<open>lang::ReduceMin\<close>, which are not
  among the files shown, map the indexed input element, the reduction variables and
  the identity value to the expression of the fold over the reduction domain.
\<close>

definition lang_ReduceSum :: "Expr \<Rightarrow> Var list \<Rightarrow> Expr option \<Rightarrow> Expr" where
  "lang_ReduceSum e reduce_axis initial = ir_Reduce kSum initial e reduce_axis"

definition lang_ReduceMul :: "Expr \<Rightarrow> Var list \<Rightarrow> Expr option \<Rightarrow> Expr" where
  "lang_ReduceMul e reduce_axis initial = ir_Reduce kMul initial e reduce_axis"

definition lang_ReduceMax :: "Expr \<Rightarrow> Var list \<Rightarrow> Expr option \<Rightarrow> Expr" where
  "lang_ReduceMax e reduce_axis initial = ir_Reduce kMax initial e reduce_axis"

definition lang_ReduceMin :: "Expr \<Rightarrow> Var list \<Rightarrow> Expr option \<Rightarrow> Expr" where
  "lang_ReduceMin e reduce_axis initial = ir_Reduce kMin initial e reduce_axis"

text \<open>
  Modelled from the spec: \<^verbatim>\<open>lang::CallExtern(name, args)\<close>, which is not among the files
  shown, is a call to the externally declared function of that name. The table of
  the declared functions' return types is the parameter \<open>proto\<close>.
\<close>

definition CallExtern :: "(string \<Rightarrow> Type) \<Rightarrow> string \<Rightarrow> Expr list \<Rightarrow> Expr" where
  "CallExtern proto func_name args = Call (proto func_name) func_name args"

subsection \<open>Names\<close>

text \<open>The decimal digits of a counter, for the names drawn below.\<close>

fun digits :: "nat \<Rightarrow> string" where
  "digits n =
     (if n < 10 then [char_of (48 + n)]
      else digits (n div 10) @ [char_of (48 + n mod 10)])"

declare digits.simps [simp del]

text \<open>
  Modelled from the spec: \<^verbatim>\<open>UniqName(prefix)\<close>, which is not among the files shown, draws
  a name from the process-wide generator of unique names. The generator's counter is
  the state \<open>ctx\<close>, passed in and returned advanced.
\<close>

definition UniqName :: "nat \<Rightarrow> string \<Rightarrow> string \<times> nat" where
  "UniqName ctx prefix = (prefix @ ''_'' @ digits ctx, Suc ctx)"

text \<open>
  Modelled from the spec: the variables of an index domain, one per dimension
  (\<^verbatim>\<open>GenDefaultAxis\<close>, not among the files shown); their names are numbered here.
\<close>

definition GenDefaultAxis :: "nat \<Rightarrow> Var list" where
  "GenDefaultAxis naxis = map (\<lambda>i. Var None None (''axis'' @ digits i)) [0..<naxis]"

text \<open>
  Modelled from the spec: \<^verbatim>\<open>lang::Compute(domain, fn, name)\<close>, which is not among the
  files shown, declares the tensor of that name and shape whose element at an index
  tuple is \<open>fn\<close> of the tuple. The tensor keeps \<open>fn\<close> applied to the variables of
  the domain, so a failure of \<open>fn\<close> is a failure of the construction.
\<close>

definition Compute :: "Expr list \<Rightarrow> (Expr list \<Rightarrow> error + Expr) \<Rightarrow> string \<Rightarrow> error + Tensor" where
  "Compute domain fn name =
     (case fn (map VarE (GenDefaultAxis (length domain))) of
        Inl e \<Rightarrow> Inl e
      | Inr fn_body \<Rightarrow> Inr (Tensor name domain (Expr_type fn_body) (Some fn_body)))"

subsection \<open>GetOutputShape\<close>

text \<open>
  \<^verbatim>\<open>std::find(real_axes.begin(), real_axes.end(), i) != real_axes.end()\<close> compares the
  \<^verbatim>\<open>int\<close> elements with the \<^verbatim>\<open>size_t\<close> index \<open>i\<close>. The comparison converts a negative
  element to a value of at least \<open>2 ^ 63\<close>, which no index of a vector reaches, so the
  test is membership of \<open>int i\<close>.
\<close>

definition has_axis :: "int list \<Rightarrow> nat \<Rightarrow> bool" where
  "has_axis axes i = (int i \<in> set axes)"

text \<open>
  \<^verbatim>\<open>
  auto ndim = tensor->shape.size();
  if (keep_dims) {
    for (size_t i = 0; i < ndim; ++i) {
      if (std::find(real_axes.begin(), real_axes.end(), i) != real_axes.end()) {
        output_shape->push_back(common::make_one());
      } else {
        output_shape->push_back(tensor->shape[i]);
      }
    }
  } else {
    for (size_t i = 0; i < ndim; ++i) {
      if (std::find(real_axes.begin(), real_axes.end(), i) == real_axes.end()) {
        output_shape->push_back(tensor->shape[i]);
      }
    }
  }
  if (output_shape->empty()) {
    output_shape->push_back(common::make_one());
  }
  \<close>
\<close>

function keep_dims_loop :: "int list \<Rightarrow> Tensor \<Rightarrow> nat \<Rightarrow> Expr list \<Rightarrow> Expr list" where
  "keep_dims_loop real_axes tensor i output_shape =
     (if i < length (shape tensor) then
        (if has_axis real_axes i
         then keep_dims_loop real_axes tensor (i + 1) (output_shape @ [make_one])
         else keep_dims_loop real_axes tensor (i + 1) (output_shape @ [shape tensor ! i]))
      else output_shape)"
  by pat_completeness auto
termination
  by (relation "measure (\<lambda>(real_axes, tensor, i, output_shape). length (shape tensor) - i)") auto

declare keep_dims_loop.simps [simp del]

function drop_dims_loop :: "int list \<Rightarrow> Tensor \<Rightarrow> nat \<Rightarrow> Expr list \<Rightarrow> Expr list" where
  "drop_dims_loop real_axes tensor i output_shape =
     (if i < length (shape tensor) then
        (if \<not> has_axis real_axes i
         then drop_dims_loop real_axes tensor (i + 1) (output_shape @ [shape tensor ! i])
         else drop_dims_loop real_axes tensor (i + 1) output_shape)
      else output_shape)"
  by pat_completeness auto
termination
  by (relation "measure (\<lambda>(real_axes, tensor, i, output_shape). length (shape tensor) - i)") auto

declare drop_dims_loop.simps [simp del]

definition GetOutputShape :: "int list \<Rightarrow> Expr list \<Rightarrow> Tensor \<Rightarrow> bool \<Rightarrow> Expr list" where
  "GetOutputShape real_axes output_shape tensor keep_dims =
     (let pushed =
        (if keep_dims then keep_dims_loop real_axes tensor 0 output_shape
         else drop_dims_loop real_axes tensor 0 output_shape)
      in if pushed = [] then pushed @ [make_one] else pushed)"

subsection \<open>DoReduce\<close>

text \<open>
  \<^verbatim>\<open>
  std::vector<Var> reduce_axes;
  for (auto& axis : real_axes) {
    std::string name = UniqName("kk");
    reduce_axes.push_back(Var(tensor->shape[axis], name));
  }
  \<close>
  \<^verbatim>\<open>Var(upper_bound, name)\<close> is the variable of that name over \<open>[0, upper_bound)\<close>.
  \<^verbatim>\<open>tensor->shape[axis]\<close> outside the shape is undefined in C++: \<open>OutOfRange\<close>.
\<close>

fun make_reduce_axes :: "nat \<Rightarrow> Tensor \<Rightarrow> int list \<Rightarrow> Var list \<Rightarrow> error + Var list \<times> nat" where
  "make_reduce_axes ctx tensor [] reduce_axes = Inr (reduce_axes, ctx)"
| "make_reduce_axes ctx tensor (axis # real_axes) reduce_axes =
     (case UniqName ctx ''kk'' of
        (name, ctx') \<Rightarrow>
          if 0 \<le> axis \<and> axis < int (length (shape tensor))
          then make_reduce_axes ctx' tensor real_axes
                 (reduce_axes @ [Var (Some (Expr_int 0)) (Some (shape tensor ! nat axis)) name])
          else Inl OutOfRange)"

text \<open>
  \<^verbatim>\<open>
  std::vector<Expr> eval_indice;
  int indice_cnt = 0;
  int reduce_cnt = 0;
  for (size_t i = 0; i < tensor->shape.size(); ++i) {
    bool squeeze_i = std::find(squeeze_axes.begin(), squeeze_axes.end(), i) != squeeze_axes.end();
    if (std::find(real_axes.begin(), real_axes.end(), i) != real_axes.end()) {
      eval_indice.push_back(reduce_axes[reduce_cnt]);
      reduce_cnt++;
      indice_cnt += !squeeze_i;
      continue;
    }
    eval_indice.push_back(indices[indice_cnt]);
    indice_cnt++;
  }
  return fn(tensor(eval_indice), reduce_axes, initial);
  \<close>
  The loop's state is the index tuple built so far and the two cursors. A read of
  \<^verbatim>\<open>reduce_axes\<close> or of \<^verbatim>\<open>indices\<close> at a cursor that has left the vector is
  \<open>OutOfRange\<close>.
\<close>

function eval_indice_loop ::
  "Tensor \<Rightarrow> int list \<Rightarrow> int list \<Rightarrow> Var list \<Rightarrow> Expr list \<Rightarrow>
   nat \<Rightarrow> Expr list \<times> nat \<times> nat \<Rightarrow> error + Expr list \<times> nat \<times> nat" where
  "eval_indice_loop tensor real_axes squeeze_axes reduce_axes indices i (eval_indice, indice_cnt, reduce_cnt) =
     (if i < length (shape tensor) then
        (let squeeze_i = has_axis squeeze_axes i in
         if has_axis real_axes i then
           (if reduce_cnt < length reduce_axes
            then eval_indice_loop tensor real_axes squeeze_axes reduce_axes indices (i + 1)
                   (eval_indice @ [VarE (reduce_axes ! reduce_cnt)],
                    indice_cnt + (if \<not> squeeze_i then 1 else 0),
                    reduce_cnt + 1)
            else Inl OutOfRange)
         else
           (if indice_cnt < length indices
            then eval_indice_loop tensor real_axes squeeze_axes reduce_axes indices (i + 1)
                   (eval_indice @ [indices ! indice_cnt], indice_cnt + 1, reduce_cnt)
            else Inl OutOfRange))
      else Inr (eval_indice, indice_cnt, reduce_cnt))"
  by pat_completeness auto
termination
  by (relation "measure (\<lambda>(tensor, real_axes, squeeze_axes, reduce_axes, indices, i, st).
        length (shape tensor) - i)") auto

declare eval_indice_loop.simps [simp del]

definition DoReduce_compute ::
  "Tensor \<Rightarrow> (Expr \<Rightarrow> Var list \<Rightarrow> Expr option \<Rightarrow> Expr) \<Rightarrow> int list \<Rightarrow> int list \<Rightarrow>
   Expr option \<Rightarrow> Var list \<Rightarrow> Expr list \<Rightarrow> error + Expr" where
  "DoReduce_compute tensor fn real_axes squeeze_axes initial reduce_axes indices =
     (case eval_indice_loop tensor real_axes squeeze_axes reduce_axes indices 0 ([], 0, 0) of
        Inl e \<Rightarrow> Inl e
      | Inr (eval_indice, indice_cnt, reduce_cnt) \<Rightarrow>
          Inr (fn (Load tensor eval_indice) reduce_axes initial))"

definition DoReduce ::
  "nat \<Rightarrow> Tensor \<Rightarrow> (Expr \<Rightarrow> Var list \<Rightarrow> Expr option \<Rightarrow> Expr) \<Rightarrow> Expr list \<Rightarrow> int list \<Rightarrow>
   int list \<Rightarrow> Expr option \<Rightarrow> string \<Rightarrow> error + Tensor \<times> nat" where
  "DoReduce ctx tensor fn output_shape real_axes squeeze_axes initial output_name =
     (case make_reduce_axes ctx tensor real_axes [] of
        Inl e \<Rightarrow> Inl e
      | Inr (reduce_axes, ctx') \<Rightarrow>
          (case Compute output_shape
                  (DoReduce_compute tensor fn real_axes squeeze_axes initial reduce_axes)
                  output_name of
             Inl e \<Rightarrow> Inl e
           | Inr C \<Rightarrow> Inr (C, ctx')))"

subsection \<open>Reduce and the named reductions\<close>

text \<open>
  \<^verbatim>\<open>
  auto ndim = tensor->shape.size();
  CHECK_GT(ndim, 0) << "Reduce tensor's dim must be more than 0";
  std::vector<int> real_axes;
  GetRealAxes(static_cast<int>(ndim), axes, &real_axes);
  std::vector<Expr> output_shapes;
  GetOutputShape(real_axes, &output_shapes, tensor, keep_dims);
  return DoReduce(
      tensor, fn, output_shapes, real_axes, keep_dims ? std::vector<int>() : real_axes, initial, output_name);
  \<close>
\<close>

definition Reduce ::
  "nat \<Rightarrow> Tensor \<Rightarrow> int list \<Rightarrow> (Expr \<Rightarrow> Var list \<Rightarrow> Expr option \<Rightarrow> Expr) \<Rightarrow> bool \<Rightarrow>
   Expr option \<Rightarrow> string \<Rightarrow> error + Tensor \<times> nat" where
  "Reduce ctx tensor axes fn keep_dims initial output_name =
     (let ndim = length (shape tensor) in
      if \<not> ndim > 0 then Inl InvalidRank
      else (case GetRealAxes (int ndim) axes [] of
              Inl e \<Rightarrow> Inl e
            | Inr real_axes \<Rightarrow>
                DoReduce ctx tensor fn (GetOutputShape real_axes [] tensor keep_dims) real_axes
                  (if keep_dims then [] else real_axes) initial output_name))"

text \<open>
  \<^verbatim>\<open>
  Tensor ReduceSum(const Tensor& A, const std::vector<int>& axes, bool keep_dims, ir::Expr initial,
                   const std::string& output_name) {
    if (!initial.defined()) initial = common::make_const(A->type(), 0);
    return Reduce(A, axes, lang::ReduceSum, keep_dims, initial, output_name);
  }
  Tensor ReduceProd(...) {
    if (!initial.defined()) initial = common::make_const(A->type(), 1);
    return Reduce(A, axes, lang::ReduceMul, keep_dims, initial, output_name);
  }
  Tensor ReduceMax(...) { return Reduce(A, axes, lang::ReduceMax, keep_dims, Expr(), output_name); }
  Tensor ReduceMin(...) { return Reduce(A, axes, lang::ReduceMin, keep_dims, Expr(), output_name); }
  \<close>
\<close>

definition ReduceSum ::
  "nat \<Rightarrow> Tensor \<Rightarrow> int list \<Rightarrow> bool \<Rightarrow> Expr option \<Rightarrow> string \<Rightarrow> error + Tensor \<times> nat" where
  "ReduceSum ctx A axes keep_dims initial output_name =
     (let initial' = (if initial = None then Some (make_const (tensor_type A) 0) else initial)
      in Reduce ctx A axes lang_ReduceSum keep_dims initial' output_name)"

definition ReduceProd ::
  "nat \<Rightarrow> Tensor \<Rightarrow> int list \<Rightarrow> bool \<Rightarrow> Expr option \<Rightarrow> string \<Rightarrow> error + Tensor \<times> nat" where
  "ReduceProd ctx A axes keep_dims initial output_name =
     (let initial' = (if initial = None then Some (make_const (tensor_type A) 1) else initial)
      in Reduce ctx A axes lang_ReduceMul keep_dims initial' output_name)"

definition ReduceMax ::
  "nat \<Rightarrow> Tensor \<Rightarrow> int list \<Rightarrow> bool \<Rightarrow> Expr option \<Rightarrow> string \<Rightarrow> error + Tensor \<times> nat" where
  "ReduceMax ctx A axes keep_dims initial output_name =
     Reduce ctx A axes lang_ReduceMax keep_dims None output_name"

definition ReduceMin ::
  "nat \<Rightarrow> Tensor \<Rightarrow> int list \<Rightarrow> bool \<Rightarrow> Expr option \<Rightarrow> string \<Rightarrow> error + Tensor \<times> nat" where
  "ReduceMin ctx A axes keep_dims initial output_name =
     Reduce ctx A axes lang_ReduceMin keep_dims None output_name"

subsection \<open>WarpReduce\<close>

text \<open>
  Modelled from the spec: \<^verbatim>\<open>common::IndiceToAbsOffset(shape, indices)\<close>, which is not
  among the files shown, is the flattened absolute element offset of the index tuple
  in the tensor's backing storage: each index times the sizes of the dimensions after
  it, summed.
\<close>

fun indice_prod :: "Expr \<Rightarrow> Expr list \<Rightarrow> Expr" where
  "indice_prod e [] = e"
| "indice_prod e (d # ds) = indice_prod (Mul e d) ds"

fun offset_terms :: "Expr list \<Rightarrow> Expr list \<Rightarrow> Expr list" where
  "offset_terms (d # ds) (i # is) = indice_prod i ds # offset_terms ds is"
| "offset_terms ds is = []"

definition IndiceToAbsOffset :: "Expr list \<Rightarrow> Expr list \<Rightarrow> Expr" where
  "IndiceToAbsOffset shp indices =
     (case offset_terms shp indices of
        [] \<Rightarrow> Expr_int 0
      | t # ts \<Rightarrow> foldl Add t ts)"

text \<open>
  \<^verbatim>\<open>
  Expr lane(1);
  for (int idx = A->shape.size() - 1; idx >= (A->shape.size() - last_reduce_dim_num); --idx) {
    lane = lane * A->shape[idx].as_int32();
  }
  \<close>
  \<^verbatim>\<open>A->shape.size()\<close> is a \<^verbatim>\<open>size_t\<close>, so the bound is computed modulo \<open>2 ^ 64\<close> and
  the comparison converts \<^verbatim>\<open>idx\<close> to \<^verbatim>\<open>size_t\<close> as well: \<open>-1\<close> becomes
  \<open>2 ^ 64 - 1\<close>. The \<^verbatim>\<open>int\<close> \<^verbatim>\<open>idx\<close> starts one below the rank and is decremented
  only after a read inside the shape; \<^verbatim>\<open>A->shape[idx]\<close> outside the shape is
  \<open>OutOfRange\<close>. The product of the lane expression with the \<^verbatim>\<open>int32_t\<close> size is
  the product node of the two (modelled from the spec: the operators of \<^verbatim>\<open>Expr\<close>
  are not among the files shown).
\<close>

definition size_t :: "int \<Rightarrow> int" where
  "size_t i = i mod 2 ^ 64"

function lane_loop :: "Tensor \<Rightarrow> int \<Rightarrow> int \<Rightarrow> Expr \<Rightarrow> error + Expr" where
  "lane_loop A last_reduce_dim_num idx lane =
     (if size_t idx \<ge> size_t (int (length (shape A)) - last_reduce_dim_num) then
        (if 0 \<le> idx \<and> idx < int (length (shape A)) then
           (case as_int32 (shape A ! nat idx) of
              Inl e \<Rightarrow> Inl e
            | Inr v \<Rightarrow> lane_loop A last_reduce_dim_num (idx - 1) (Mul lane (Expr_int v)))
         else Inl OutOfRange)
      else Inr lane)"
  by pat_completeness auto
termination
  by (relation "measure (\<lambda>(A, last_reduce_dim_num, idx, lane). nat (idx + 1))") auto

declare lane_loop.simps [simp del]

text \<open>
  \<^verbatim>\<open>std::vector<Expr>(A->shape.begin(), A->shape.begin() + A->shape.size() - last_reduce_dim_num)\<close>:
  the iterator range is inside the vector when \<open>0 \<le> last_reduce_dim_num \<le> size\<close>, and
  undefined otherwise.
\<close>

definition leading_dims :: "Tensor \<Rightarrow> int \<Rightarrow> error + Expr list" where
  "leading_dims A last_reduce_dim_num =
     (if 0 \<le> last_reduce_dim_num \<and> last_reduce_dim_num \<le> int (length (shape A))
      then Inr (take (nat (int (length (shape A)) - last_reduce_dim_num)) (shape A))
      else Inl OutOfRange)"

text \<open>
  \<^verbatim>\<open>
  [=](const std::vector<Expr>& indexs) -> Expr {
    std::vector<Expr> tmp_indexs(indexs.begin(), indexs.begin() + indexs.size() - 1);
    for (int idx = 0; idx < last_reduce_dim_num; ++idx) tmp_indexs.push_back(Expr(0));
    CHECK_EQ(A->shape.size(), tmp_indexs.size());
    Expr offset = common::IndiceToAbsOffset(A->shape, tmp_indexs);
    return lang::CallExtern(reduce_type, {A, offset, lane});
  }
  \<close>
\<close>

function push_zeros :: "int \<Rightarrow> int \<Rightarrow> Expr list \<Rightarrow> Expr list" where
  "push_zeros idx last_reduce_dim_num tmp_indexs =
     (if idx < last_reduce_dim_num
      then push_zeros (idx + 1) last_reduce_dim_num (tmp_indexs @ [Expr_int 0])
      else tmp_indexs)"
  by pat_completeness auto
termination
  by (relation "measure (\<lambda>(idx, last_reduce_dim_num, tmp_indexs). nat (last_reduce_dim_num - idx))") auto

declare push_zeros.simps [simp del]

definition WarpReduce_tmp_compute ::
  "(string \<Rightarrow> Type) \<Rightarrow> Tensor \<Rightarrow> int \<Rightarrow> string \<Rightarrow> Expr \<Rightarrow> Expr list \<Rightarrow> error + Expr" where
  "WarpReduce_tmp_compute proto A last_reduce_dim_num reduce_type lane indexs =
     (if indexs = [] then Inl OutOfRange
      else
        (let tmp_indexs = push_zeros 0 last_reduce_dim_num (butlast indexs) in
         if length (shape A) \<noteq> length tmp_indexs then Inl ShapeMismatch
         else Inr (CallExtern proto reduce_type
                     [TensorE A, IndiceToAbsOffset (shape A) tmp_indexs, lane])))"

text \<open>
  \<^verbatim>\<open>
  [=](const std::vector<Expr>& indexs) -> Expr {
    std::vector<Expr> tmp_indexs(indexs);
    tmp_indexs.push_back(Expr(0));
    return tmp_out(tmp_indexs);
  }
  \<close>
\<close>

definition WarpReduce_out_compute :: "Tensor \<Rightarrow> Expr list \<Rightarrow> error + Expr" where
  "WarpReduce_out_compute tmp_out indexs = Inr (Load tmp_out (indexs @ [Expr_int 0]))"

text \<open>
  \<^verbatim>\<open>
  std::vector<Expr> tmp_shape(A->shape.begin(), A->shape.begin() + A->shape.size() - last_reduce_dim_num);
  tmp_shape.push_back(Expr(32));
  auto tmp_out = Compute(tmp_shape, [=](...) {...}, UniqName(output_name + "_" + reduce_type));
  std::vector<Expr> out_shape(A->shape.begin(), A->shape.begin() + A->shape.size() - last_reduce_dim_num);
  auto out = Compute(out_shape, [=](...) {...}, UniqName(output_name));
  return {out, tmp_out};
  \<close>
\<close>

definition WarpReduce ::
  "nat \<Rightarrow> (string \<Rightarrow> Type) \<Rightarrow> Tensor \<Rightarrow> int \<Rightarrow> string \<Rightarrow> string \<Rightarrow> error + Tensor list \<times> nat" where
  "WarpReduce ctx proto A last_reduce_dim_num reduce_type output_name =
     (case lane_loop A last_reduce_dim_num (int (length (shape A)) - 1) (Expr_int 1) of
        Inl e \<Rightarrow> Inl e
      | Inr lane \<Rightarrow>
     (case leading_dims A last_reduce_dim_num of
        Inl e \<Rightarrow> Inl e
      | Inr tmp_shape \<Rightarrow>
     (case UniqName ctx (output_name @ ''_'' @ reduce_type) of
        (tmp_name, ctx1) \<Rightarrow>
     (case Compute (tmp_shape @ [Expr_int 32])
             (WarpReduce_tmp_compute proto A last_reduce_dim_num reduce_type lane) tmp_name of
        Inl e \<Rightarrow> Inl e
      | Inr tmp_out \<Rightarrow>
     (case leading_dims A last_reduce_dim_num of
        Inl e \<Rightarrow> Inl e
      | Inr out_shape \<Rightarrow>
     (case UniqName ctx1 output_name of
        (out_name, ctx2) \<Rightarrow>
     (case Compute out_shape (WarpReduce_out_compute tmp_out) out_name of
        Inl e \<Rightarrow> Inl e
      | Inr out \<Rightarrow> Inr ([out, tmp_out], ctx2))))))))"

definition WarpReduceMax ::
  "nat \<Rightarrow> (string \<Rightarrow> Type) \<Rightarrow> Tensor \<Rightarrow> int \<Rightarrow> string \<Rightarrow> error + Tensor list \<times> nat" where
  "WarpReduceMax ctx proto A last_reduce_dim_num output_name =
     WarpReduce ctx proto A last_reduce_dim_num ''cinn_warp_reduce_max'' output_name"

definition WarpReduceSum ::
  "nat \<Rightarrow> (string \<Rightarrow> Type) \<Rightarrow> Tensor \<Rightarrow> int \<Rightarrow> string \<Rightarrow> error + Tensor list \<times> nat" where
  "WarpReduceSum ctx proto A last_reduce_dim_num output_name =
     WarpReduce ctx proto A last_reduce_dim_num ''cinn_warp_reduce_sum'' output_name"

definition WarpReduceAvg ::
  "nat \<Rightarrow> (string \<Rightarrow> Type) \<Rightarrow> Tensor \<Rightarrow> int \<Rightarrow> string \<Rightarrow> error + Tensor list \<times> nat" where
  "WarpReduceAvg ctx proto A last_reduce_dim_num output_name =
     WarpReduce ctx proto A last_reduce_dim_num ''cinn_warp_reduce_avg'' output_name"

text \<open>
  Modelled from the spec: the value of an index expression, in the integers.
  Constants, sums and products are computed; every other node (an index variable, a
  symbolic size) is read from the valuation \<open>\<rho>\<close>.
\<close>

fun eval :: "(Expr \<Rightarrow> int) \<Rightarrow> Expr \<Rightarrow> int" where
  "eval \<rho> (IntImm t v) = v"
| "eval \<rho> (Add a b) = eval \<rho> a + eval \<rho> b"
| "eval \<rho> (Mul a b) = eval \<rho> a * eval \<rho> b"
| "eval \<rho> e = \<rho> e"

subsection \<open>The index tuple of DoReduce, in the words of the specification\<close>

text \<open>
  One step of the construction as the specification describes it, for the input
  dimension \<open>i\<close>: the state is the tuple of slots filled so far, the cursor into the
  output index tuple (\<open>indice_cnt\<close>) and the cursor into the reduction variables
  (\<open>reduce_cnt\<close>). A dimension of the axis set takes the next reduction variable,
  advances \<open>reduce_cnt\<close>, and advances \<open>indice_cnt\<close> only when it is not in the
  squeeze set; any other dimension takes the next entry of the output index tuple
  and advances \<open>indice_cnt\<close>. \<open>spec_index_tuple\<close> runs the step over the dimensions
  in the order given.
\<close>

definition spec_index_step ::
  "int list \<Rightarrow> int list \<Rightarrow> Var list \<Rightarrow> Expr list \<Rightarrow> nat \<Rightarrow> Expr list \<times> nat \<times> nat \<Rightarrow>
   error + Expr list \<times> nat \<times> nat" where
  "spec_index_step axis_set squeeze_set reduce_vars out_indices i st =
     (case st of
        (slots, indice_cnt, reduce_cnt) \<Rightarrow>
          if int i \<in> set axis_set then
            (if reduce_cnt < length reduce_vars
             then Inr (slots @ [VarE (reduce_vars ! reduce_cnt)],
                       (if int i \<in> set squeeze_set then indice_cnt else indice_cnt + 1),
                       reduce_cnt + 1)
             else Inl OutOfRange)
          else
            (if indice_cnt < length out_indices
             then Inr (slots @ [out_indices ! indice_cnt], indice_cnt + 1, reduce_cnt)
             else Inl OutOfRange))"

fun spec_index_tuple ::
  "int list \<Rightarrow> int list \<Rightarrow> Var list \<Rightarrow> Expr list \<Rightarrow> nat list \<Rightarrow> Expr list \<times> nat \<times> nat \<Rightarrow>
   error + Expr list \<times> nat \<times> nat" where
  "spec_index_tuple axis_set squeeze_set reduce_vars out_indices [] st = Inr st"
| "spec_index_tuple axis_set squeeze_set reduce_vars out_indices (i # dims) st =
     (case spec_index_step axis_set squeeze_set reduce_vars out_indices i st of
        Inl e \<Rightarrow> Inl e
      | Inr st' \<Rightarrow> spec_index_tuple axis_set squeeze_set reduce_vars out_indices dims st')"

text \<open>
  The cursors in closed form: between dimension \<open>i\<close> and dimension \<open>j\<close> the reduction
  cursor advances once for every dimension of the axis set, the output cursor once
  for every dimension that is not both reduced and squeezed.
\<close>

definition reduce_cursor :: "int list \<Rightarrow> nat \<Rightarrow> nat \<Rightarrow> nat" where
  "reduce_cursor real_axes i j = length (filter (has_axis real_axes) [i..<j])"

definition indice_cursor :: "int list \<Rightarrow> int list \<Rightarrow> nat \<Rightarrow> nat \<Rightarrow> nat" where
  "indice_cursor real_axes squeeze_axes i j =
     length (filter (\<lambda>d. \<not> (has_axis real_axes d \<and> has_axis squeeze_axes d)) [i..<j])"

subsection \<open>Sample inputs\<close>

definition A234 :: Tensor where
  "A234 = Tensor ''A'' [Expr_int 2, Expr_int 3, Expr_int 4] (FloatT 32) None"

definition A864 :: Tensor where
  "A864 = Tensor ''A'' [Expr_int 8, Expr_int 64] (FloatT 32) None"


definition kk1 :: Var where
  "kk1 = Var (Some (Expr_int 0)) (Some (Expr_int 3)) ''kk_0''"

definition yy :: Expr where
  "yy = VarE (Var None None ''y'')"

definition xx :: Expr where
  "xx = VarE (Var None None ''x'')"

definition float_proto :: "string \<Rightarrow> Type" where
  "float_proto func_name = FloatT 32"

section \<open>Properties\<close>

subsection \<open>Axis normalisation\<close>

lemma push_all_dims_eq: "push_all_dims i ndim real_axes = real_axes @ [i..ndim - 1]"
proof (induction i ndim real_axes rule: push_all_dims.induct)
  case (1 i ndim real_axes)
  show ?case
  proof (cases "i < ndim")
    case True
    then have "[i..ndim - 1] = i # [i + 1..ndim - 1]"
      by (simp add: upto_rec1)
    with True 1 show ?thesis
      by (simp add: push_all_dims.simps [of i])
  next
    case False
    then show ?thesis by (simp add: push_all_dims.simps [of i])
  qed
qed

lemma push_axes_fails_iff:
  "(\<exists>e. push_axes ndim axes acc = Inl e) =
   (\<exists>a \<in> set axes. adjust_axis ndim a < 0 \<or> ndim < adjust_axis ndim a)"
  by (induction axes arbitrary: acc) auto

lemma push_axes_error: "push_axes ndim axes acc = Inl e \<Longrightarrow> e = InvalidAxis"
  by (induction axes arbitrary: acc) (auto split: if_splits)


text \<open>
  C9. With an empty axis list the normaliser returns every dimension, in order:
  \<open>0, 1, ..., ndim - 1\<close>.
\<close>

theorem GetRealAxes_empty_axes: "GetRealAxes ndim [] [] = Inr [0..ndim - 1]"
  by (simp add: GetRealAxes_def push_all_dims_eq)

text \<open>
  C4. For a positive rank, normalisation fails exactly when some axis, after the
  adjustment of negative values, is below \<open>0\<close> or above \<open>ndim\<close>, and the failure is
  \<open>InvalidAxis\<close>; the adjusted value \<open>ndim\<close> itself passes. It fails for rank 3 with
  the axes \<open>[5]\<close> and with the axes \<open>[-10]\<close>.
\<close>

theorem GetRealAxes_InvalidAxis:
  assumes "0 < ndim"
  shows "((\<exists>e. GetRealAxes ndim axes real_axes = Inl e) =
            (\<exists>a \<in> set axes. adjust_axis ndim a < 0 \<or> ndim < adjust_axis ndim a))
         \<and> ((\<exists>e. GetRealAxes ndim axes real_axes = Inl e) =
            (GetRealAxes ndim axes real_axes = Inl InvalidAxis))
         \<and> GetRealAxes ndim [ndim] [] = Inr [ndim]
         \<and> GetRealAxes 3 [5] [] = Inl InvalidAxis
         \<and> GetRealAxes 3 [- 10] [] = Inl InvalidAxis"
proof -
  have fails: "(\<exists>e. GetRealAxes ndim axes real_axes = Inl e) =
      (\<exists>e. push_axes ndim axes real_axes = Inl e)"
    by (cases "push_axes ndim axes real_axes") (auto simp: GetRealAxes_def)
  have a: "(\<exists>e. GetRealAxes ndim axes real_axes = Inl e) =
            (\<exists>a \<in> set axes. adjust_axis ndim a < 0 \<or> ndim < adjust_axis ndim a)"
    unfolding fails by (rule push_axes_fails_iff)
  have b: "(\<exists>e. GetRealAxes ndim axes real_axes = Inl e) =
            (GetRealAxes ndim axes real_axes = Inl InvalidAxis)"
    by (cases "push_axes ndim axes real_axes")
       (auto simp: GetRealAxes_def dest: push_axes_error)
  have c: "GetRealAxes ndim [ndim] [] = Inr [ndim]"
    using assms by (simp add: GetRealAxes_def adjust_axis_def)
  have d: "GetRealAxes 3 [5] [] = Inl InvalidAxis"
    by (simp add: GetRealAxes_def adjust_axis_def)
  have e: "GetRealAxes 3 [- 10] [] = Inl InvalidAxis"
    by (simp add: GetRealAxes_def adjust_axis_def)
  from a b c d e show ?thesis by blast
qed

theorem GetRealAxes_InvalidAxis_witness:
  "GetRealAxes 3 [1, - 4] [] = Inl InvalidAxis \<and> GetRealAxes 3 [3] [] = Inr [3]"
proof -
  have pos: "(0::int) < 3" by simp
  have bad: "\<exists>a \<in> set [1, - 4]. adjust_axis 3 a < 0 \<or> 3 < adjust_axis 3 a"
    by (simp add: adjust_axis_def)
  from GetRealAxes_InvalidAxis [OF pos, of "[1, - 4]" "[]"] bad show ?thesis
    by blast
qed

text \<open>
  C1. The result is not free of duplicates: \<^verbatim>\<open>std::unique\<close> runs before
  \<^verbatim>\<open>std::sort\<close> and removes only adjacent repetitions. For rank 4 and the axes
  \<open>[-1, 1, -1]\<close> the adjusted axes are \<open>3, 1, 3\<close>, nothing is adjacent, and the
  sorted result keeps \<open>3\<close> twice.
\<close>

theorem GetRealAxes_keeps_duplicates:
  "GetRealAxes 4 [- 1, 1, - 1] [] = Inr [1, 3, 3] \<and> \<not> distinct [1, 3, 3 :: int]"
  by (simp add: GetRealAxes_def adjust_axis_def)

subsection \<open>Output shape\<close>

lemma keep_dims_loop_eq:
  "keep_dims_loop real_axes tensor i output_shape =
     output_shape @ map (\<lambda>j. if has_axis real_axes j then make_one else shape tensor ! j)
                      [i..<length (shape tensor)]"
proof (induction real_axes tensor i output_shape rule: keep_dims_loop.induct)
  case (1 real_axes tensor i output_shape)
  show ?case
  proof (cases "i < length (shape tensor)")
    case True
    then have "[i..<length (shape tensor)] = i # [i + 1..<length (shape tensor)]"
      by (simp add: upt_conv_Cons)
    with True 1 show ?thesis
      by (simp add: keep_dims_loop.simps [of _ _ i])
  next
    case False
    then show ?thesis by (simp add: keep_dims_loop.simps [of _ _ i])
  qed
qed

lemma drop_dims_loop_eq:
  "drop_dims_loop real_axes tensor i output_shape =
     output_shape @ map (\<lambda>j. shape tensor ! j)
                      (filter (\<lambda>j. \<not> has_axis real_axes j) [i..<length (shape tensor)])"
proof (induction real_axes tensor i output_shape rule: drop_dims_loop.induct)
  case (1 real_axes tensor i output_shape)
  show ?case
  proof (cases "i < length (shape tensor)")
    case True
    then have "[i..<length (shape tensor)] = i # [i + 1..<length (shape tensor)]"
      by (simp add: upt_conv_Cons)
    with True 1 show ?thesis
      by (simp add: drop_dims_loop.simps [of _ _ i])
  next
    case False
    then show ?thesis by (simp add: drop_dims_loop.simps [of _ _ i])
  qed
qed


lemma count_kept_dims:
  assumes "\<forall>a \<in> set real_axes. 0 \<le> a \<and> a < int n"
  shows "length (filter (\<lambda>j. \<not> has_axis real_axes j) [0..<n]) = n - card (set real_axes)"
proof -
  have sub: "nat ` set real_axes \<subseteq> {0..<n}"
    using assms by auto
  have inj: "inj_on nat (set real_axes)"
    using assms by (auto simp: inj_on_def eq_nat_nat_iff)
  have "{j. \<not> has_axis real_axes j} \<inter> {0..<n} = {0..<n} - nat ` set real_axes"
    using assms by (auto simp: has_axis_def image_iff) (metis nat_int)
  moreover have "length (filter (\<lambda>j. \<not> has_axis real_axes j) [0..<n]) =
      card ({j. \<not> has_axis real_axes j} \<inter> {0..<n})"
    by (simp add: distinct_length_filter)
  ultimately have "length (filter (\<lambda>j. \<not> has_axis real_axes j) [0..<n]) =
      card ({0..<n} - nat ` set real_axes)"
    by simp
  also have "\<dots> = card {0..<n} - card (nat ` set real_axes)"
    using sub by (simp add: card_Diff_subset finite_subset)
  also have "\<dots> = n - card (set real_axes)"
    using inj by (simp add: card_image)
  finally show ?thesis .
qed

text \<open>
  C3. For axes inside the shape of a tensor of positive rank: with \<open>keep_dims\<close> the
  output shape has one entry per input dimension, the constant one for a reduced
  dimension and the input's size expression for any other, so the ranks agree;
  without \<open>keep_dims\<close> it has the sizes of the dimensions that are not reduced, in
  their order, so the rank is the input's rank less the number of distinct axes, and
  the single entry one when every dimension is reduced.
\<close>

theorem GetOutputShape_rank:
  assumes in_range: "\<forall>a \<in> set real_axes. 0 \<le> a \<and> a < int (length (shape tensor))"
    and rank: "0 < length (shape tensor)"
  shows "GetOutputShape real_axes [] tensor True =
           map (\<lambda>i. if has_axis real_axes i then make_one else shape tensor ! i)
             [0..<length (shape tensor)]
         \<and> length (GetOutputShape real_axes [] tensor True) = length (shape tensor)
         \<and> GetOutputShape real_axes [] tensor False =
             (if (\<forall>i<length (shape tensor). has_axis real_axes i)
              then [make_one]
              else map (\<lambda>i. shape tensor ! i)
                     (filter (\<lambda>i. \<not> has_axis real_axes i) [0..<length (shape tensor)]))
         \<and> length (GetOutputShape real_axes [] tensor False) =
             max 1 (length (shape tensor) - card (set real_axes))"
proof -
  let ?n = "length (shape tensor)"
  let ?kept = "filter (\<lambda>i. \<not> has_axis real_axes i) [0..<?n]"
  have keep: "GetOutputShape real_axes [] tensor True =
      map (\<lambda>i. if has_axis real_axes i then make_one else shape tensor ! i) [0..<?n]"
    using rank by (simp add: GetOutputShape_def keep_dims_loop_eq)
  have keep_len: "length (GetOutputShape real_axes [] tensor True) = ?n"
    unfolding keep by simp
  have drop: "GetOutputShape real_axes [] tensor False =
      (if ?kept = [] then [make_one] else map (\<lambda>i. shape tensor ! i) ?kept)"
    by (simp add: GetOutputShape_def drop_dims_loop_eq)
  have cnt: "length ?kept = ?n - card (set real_axes)"
    using in_range by (rule count_kept_dims)
  have drop_len: "length (GetOutputShape real_axes [] tensor False) =
      max 1 (?n - card (set real_axes))"
  proof (cases "?kept = []")
    case True
    with cnt have "?n - card (set real_axes) = 0" by simp
    with True drop show ?thesis by simp
  next
    case False
    then have "0 < length ?kept" by simp
    with cnt False drop show ?thesis by simp
  qed
  have all: "(?kept = []) = (\<forall>i<?n. has_axis real_axes i)"
    by (auto simp: filter_empty_conv)
  from keep keep_len drop drop_len show ?thesis
    unfolding all by simp
qed

theorem GetOutputShape_rank_witness:
  "GetOutputShape [1] [] A234 True = [Expr_int 2, make_one, Expr_int 4]
   \<and> GetOutputShape [1] [] A234 False = [Expr_int 2, Expr_int 4]
   \<and> length (GetOutputShape [0, 1, 2] [] A234 False) = 1"
proof -
  have r1: "\<forall>a \<in> set [1::int]. 0 \<le> a \<and> a < int (length (shape A234))"
    by (simp add: A234_def)
  have r2: "\<forall>a \<in> set [0, 1, 2::int]. 0 \<le> a \<and> a < int (length (shape A234))"
    by (simp add: A234_def)
  have n: "0 < length (shape A234)"
    by (simp add: A234_def)
  have len: "length (shape A234) = 3"
    by (simp add: A234_def)
  have up: "[0..<3] = [0, 1, 2]"
    by (simp add: upt_rec)
  have some_kept: "\<not> (\<forall>i<length (shape A234). has_axis [1] i)"
    unfolding len by (auto simp: has_axis_def intro: exI [of _ 0])
  have keep: "GetOutputShape [1] [] A234 True = [Expr_int 2, make_one, Expr_int 4]"
    using GetOutputShape_rank [OF r1 n] unfolding len up
    by (simp add: has_axis_def A234_def)
  have drop: "GetOutputShape [1] [] A234 False = [Expr_int 2, Expr_int 4]"
    using GetOutputShape_rank [OF r1 n] some_kept unfolding len up
    by (simp add: has_axis_def A234_def)
  have all: "length (GetOutputShape [0, 1, 2] [] A234 False) = 1"
    using GetOutputShape_rank [OF r2 n, THEN conjunct2, THEN conjunct2, THEN conjunct2]
    unfolding len by simp
  from keep drop all show ?thesis by simp
qed

subsection \<open>The index tuple of DoReduce\<close>

lemma eval_indice_loop_refines:
  "eval_indice_loop tensor real_axes squeeze_axes reduce_axes indices i st =
     spec_index_tuple real_axes squeeze_axes reduce_axes indices [i..<length (shape tensor)] st"
proof (induction tensor real_axes squeeze_axes reduce_axes indices i st
       rule: eval_indice_loop.induct)
  case (1 tensor real_axes squeeze_axes reduce_axes indices i eval_indice indice_cnt reduce_cnt)
  show ?case
  proof (cases "i < length (shape tensor)")
    case True
    then have up: "[i..<length (shape tensor)] = i # [i + 1..<length (shape tensor)]"
      by (simp add: upt_conv_Cons)
    show ?thesis
      using True 1
      by (simp add: eval_indice_loop.simps [of _ _ _ _ _ i] up spec_index_step_def
            has_axis_def Let_def)
  next
    case False
    then show ?thesis
      by (simp add: eval_indice_loop.simps [of _ _ _ _ _ i])
  qed
qed

lemma reduce_cursor_step:
  "i < j \<Longrightarrow> reduce_cursor real_axes i j =
     (if has_axis real_axes i then 1 else 0) + reduce_cursor real_axes (i + 1) j"
  by (simp add: reduce_cursor_def upt_conv_Cons)

lemma indice_cursor_step:
  "i < j \<Longrightarrow> indice_cursor real_axes squeeze_axes i j =
     (if has_axis real_axes i \<and> has_axis squeeze_axes i then 0 else 1)
       + indice_cursor real_axes squeeze_axes (i + 1) j"
  by (simp add: indice_cursor_def upt_conv_Cons)

lemma cursor_self [simp]:
  "reduce_cursor real_axes i i = 0" "indice_cursor real_axes squeeze_axes i i = 0"
  by (simp_all add: reduce_cursor_def indice_cursor_def)

lemma eval_indice_loop_closed:
  "eval_indice_loop tensor real_axes squeeze_axes reduce_axes indices i (ev, ic, rc) = Inr (ev', ic', rc')
   \<Longrightarrow> ev' = ev @ map (\<lambda>j. if has_axis real_axes j
                           then VarE (reduce_axes ! (rc + reduce_cursor real_axes i j))
                           else indices ! (ic + indice_cursor real_axes squeeze_axes i j))
                     [i..<length (shape tensor)]
     \<and> ic' = ic + indice_cursor real_axes squeeze_axes i (length (shape tensor))
     \<and> rc' = rc + reduce_cursor real_axes i (length (shape tensor))"
proof (induction tensor real_axes squeeze_axes reduce_axes indices i "(ev, ic, rc)"
       arbitrary: ev ic rc rule: eval_indice_loop.induct)
  case (1 tensor real_axes squeeze_axes reduce_axes indices i ev ic rc)
  let ?n = "length (shape tensor)"
  show ?case
  proof (cases "i < ?n")
    case False
    with "1.prems" show ?thesis
      by (simp add: eval_indice_loop.simps [of _ _ _ _ _ i] reduce_cursor_def indice_cursor_def)
  next
    case True
    then have up: "[i..<?n] = i # [i + 1..<?n]"
      by (simp add: upt_conv_Cons)
    have rstep: "\<And>j. i < j \<Longrightarrow> reduce_cursor real_axes i j =
        (if has_axis real_axes i then 1 else 0) + reduce_cursor real_axes (i + 1) j"
      by (rule reduce_cursor_step)
    have istep: "\<And>j. i < j \<Longrightarrow> indice_cursor real_axes squeeze_axes i j =
        (if has_axis real_axes i \<and> has_axis squeeze_axes i then 0 else 1)
          + indice_cursor real_axes squeeze_axes (i + 1) j"
      by (rule indice_cursor_step)
    show ?thesis
    proof (cases "has_axis real_axes i")
      case ax: True
      from True ax "1.prems" have inr: "rc < length reduce_axes"
        and rec: "eval_indice_loop tensor real_axes squeeze_axes reduce_axes indices (i + 1)
                   (ev @ [VarE (reduce_axes ! rc)],
                    ic + (if \<not> has_axis squeeze_axes i then 1 else 0), rc + 1) = Inr (ev', ic', rc')"
        by (simp_all add: eval_indice_loop.simps [of _ _ _ _ _ i] Let_def split: if_splits)
      from "1.hyps"(1) [OF True refl ax inr rec]
      have ih: "ev' = (ev @ [VarE (reduce_axes ! rc)]) @
             map (\<lambda>j. if has_axis real_axes j
                      then VarE (reduce_axes ! (rc + 1 + reduce_cursor real_axes (i + 1) j))
                      else indices ! (ic + (if \<not> has_axis squeeze_axes i then 1 else 0)
                                       + indice_cursor real_axes squeeze_axes (i + 1) j))
               [i + 1..<?n]"
        and ihi: "ic' = ic + (if \<not> has_axis squeeze_axes i then 1 else 0)
                    + indice_cursor real_axes squeeze_axes (i + 1) ?n"
        and ihr: "rc' = rc + 1 + reduce_cursor real_axes (i + 1) ?n"
        by simp_all
      have m: "map (\<lambda>j. if has_axis real_axes j
                      then VarE (reduce_axes ! (rc + 1 + reduce_cursor real_axes (i + 1) j))
                      else indices ! (ic + (if \<not> has_axis squeeze_axes i then 1 else 0)
                                       + indice_cursor real_axes squeeze_axes (i + 1) j))
               [i + 1..<?n]
          = map (\<lambda>j. if has_axis real_axes j
                           then VarE (reduce_axes ! (rc + reduce_cursor real_axes i j))
                           else indices ! (ic + indice_cursor real_axes squeeze_axes i j))
               [i + 1..<?n]"
        using ax by (intro map_cong refl) (simp add: rstep istep)
      show ?thesis
        using ih ihi ihr ax True unfolding m
        by (simp add: up rstep [OF True] istep [OF True])
    next
      case nax: False
      from True nax "1.prems" have inr: "ic < length indices"
        and rec: "eval_indice_loop tensor real_axes squeeze_axes reduce_axes indices (i + 1)
                   (ev @ [indices ! ic], ic + 1, rc) = Inr (ev', ic', rc')"
        by (simp_all add: eval_indice_loop.simps [of _ _ _ _ _ i] Let_def split: if_splits)
      from "1.hyps"(2) [OF True refl nax inr rec]
      have ih: "ev' = (ev @ [indices ! ic]) @
             map (\<lambda>j. if has_axis real_axes j
                      then VarE (reduce_axes ! (rc + reduce_cursor real_axes (i + 1) j))
                      else indices ! (ic + 1 + indice_cursor real_axes squeeze_axes (i + 1) j))
               [i + 1..<?n]"
        and ihi: "ic' = ic + 1 + indice_cursor real_axes squeeze_axes (i + 1) ?n"
        and ihr: "rc' = rc + reduce_cursor real_axes (i + 1) ?n"
        by simp_all
      have m: "map (\<lambda>j. if has_axis real_axes j
                      then VarE (reduce_axes ! (rc + reduce_cursor real_axes (i + 1) j))
                      else indices ! (ic + 1 + indice_cursor real_axes squeeze_axes (i + 1) j))
               [i + 1..<?n]
          = map (\<lambda>j. if has_axis real_axes j
                           then VarE (reduce_axes ! (rc + reduce_cursor real_axes i j))
                           else indices ! (ic + indice_cursor real_axes squeeze_axes i j))
               [i + 1..<?n]"
        using nax by (intro map_cong refl) (simp add: rstep istep)
      show ?thesis
        using ih ihi ihr nax True unfolding m
        by (simp add: up rstep [OF True] istep [OF True])
    qed
  qed
qed

text \<open>
  C2. The index tuple that \<^verbatim>\<open>DoReduce\<close> builds for an output index tuple is the one
  the two-cursor iteration of the specification builds, over the input dimensions
  in order, and the element is the accumulation function applied to the input read
  at that tuple. When the loop returns, the slot of a dimension in the axis set is
  the reduction variable at the number of reduced dimensions before it, whatever
  the output index tuple holds; the slot of any other dimension is the output index
  at the number of earlier dimensions that are not both reduced and squeezed; the
  cursors end at those counts over all dimensions.
\<close>

theorem DoReduce_index_tuple:
  "eval_indice_loop tensor real_axes squeeze_axes reduce_axes indices 0 ([], 0, 0) =
     spec_index_tuple real_axes squeeze_axes reduce_axes indices
       [0..<length (shape tensor)] ([], 0, 0)
   \<and> DoReduce_compute tensor fn real_axes squeeze_axes initial reduce_axes indices =
       (case spec_index_tuple real_axes squeeze_axes reduce_axes indices
               [0..<length (shape tensor)] ([], 0, 0) of
          Inl e \<Rightarrow> Inl e
        | Inr (slots, indice_cnt, reduce_cnt) \<Rightarrow>
            Inr (fn (Load tensor slots) reduce_axes initial))
   \<and> (eval_indice_loop tensor real_axes squeeze_axes reduce_axes indices 0 ([], 0, 0) =
         Inr (slots, indice_cnt, reduce_cnt) \<longrightarrow>
         slots = map (\<lambda>i. if has_axis real_axes i
                          then VarE (reduce_axes ! reduce_cursor real_axes 0 i)
                          else indices ! indice_cursor real_axes squeeze_axes 0 i)
                   [0..<length (shape tensor)]
         \<and> indice_cnt = indice_cursor real_axes squeeze_axes 0 (length (shape tensor))
         \<and> reduce_cnt = reduce_cursor real_axes 0 (length (shape tensor)))"
proof -
  have a: "eval_indice_loop tensor real_axes squeeze_axes reduce_axes indices 0 ([], 0, 0) =
     spec_index_tuple real_axes squeeze_axes reduce_axes indices
       [0..<length (shape tensor)] ([], 0, 0)"
    by (rule eval_indice_loop_refines)
  have b: "DoReduce_compute tensor fn real_axes squeeze_axes initial reduce_axes indices =
       (case spec_index_tuple real_axes squeeze_axes reduce_axes indices
               [0..<length (shape tensor)] ([], 0, 0) of
          Inl e \<Rightarrow> Inl e
        | Inr (slots, indice_cnt, reduce_cnt) \<Rightarrow>
            Inr (fn (Load tensor slots) reduce_axes initial))"
    unfolding DoReduce_compute_def a ..
  have c: "slots = map (\<lambda>i. if has_axis real_axes i
                          then VarE (reduce_axes ! reduce_cursor real_axes 0 i)
                          else indices ! indice_cursor real_axes squeeze_axes 0 i)
                   [0..<length (shape tensor)]
         \<and> indice_cnt = indice_cursor real_axes squeeze_axes 0 (length (shape tensor))
         \<and> reduce_cnt = reduce_cursor real_axes 0 (length (shape tensor))"
    if "eval_indice_loop tensor real_axes squeeze_axes reduce_axes indices 0 ([], 0, 0) =
         Inr (slots, indice_cnt, reduce_cnt)"
    using eval_indice_loop_closed [OF that] by simp
  then have c': "eval_indice_loop tensor real_axes squeeze_axes reduce_axes indices 0 ([], 0, 0) =
         Inr (slots, indice_cnt, reduce_cnt) \<longrightarrow>
         slots = map (\<lambda>i. if has_axis real_axes i
                          then VarE (reduce_axes ! reduce_cursor real_axes 0 i)
                          else indices ! indice_cursor real_axes squeeze_axes 0 i)
                   [0..<length (shape tensor)]
         \<and> indice_cnt = indice_cursor real_axes squeeze_axes 0 (length (shape tensor))
         \<and> reduce_cnt = reduce_cursor real_axes 0 (length (shape tensor))"
    by (rule impI)
  show ?thesis
    by (rule conjI [OF a conjI [OF b c']])
qed

theorem DoReduce_index_tuple_witness:
  "eval_indice_loop A234 [1] [1] [kk1] [yy, xx] 0 ([], 0, 0) = Inr ([yy, VarE kk1, xx], 2, 1)
   \<and> eval_indice_loop A234 [1] [] [kk1] [yy, Expr_int 0, xx] 0 ([], 0, 0) =
       Inr ([yy, VarE kk1, xx], 3, 1)
   \<and> DoReduce_compute A234 lang_ReduceSum [1] [1] None [kk1] [yy, xx] =
       Inr (ir_Reduce kSum None (Load A234 [yy, VarE kk1, xx]) [kk1])"
proof -
  have up: "[0..<length (shape A234)] = [0, 1, 2]"
    by (simp add: A234_def upt_rec)
  have s1: "spec_index_tuple [1] [1] [kk1] [yy, xx] [0, 1, 2] ([], 0, 0) =
      Inr ([yy, VarE kk1, xx], 2, 1)"
    by (simp add: spec_index_step_def)
  have s2: "spec_index_tuple [1] [] [kk1] [yy, Expr_int 0, xx] [0, 1, 2] ([], 0, 0) =
      Inr ([yy, VarE kk1, xx], 3, 1)"
    by (simp add: spec_index_step_def)
  note t1 = DoReduce_index_tuple [of A234 "[1]" "[1]" "[kk1]" "[yy, xx]" lang_ReduceSum None]
  note t2 = DoReduce_index_tuple [of A234 "[1]" "[]" "[kk1]" "[yy, Expr_int 0, xx]"]
  have e1: "eval_indice_loop A234 [1] [1] [kk1] [yy, xx] 0 ([], 0, 0) =
      Inr ([yy, VarE kk1, xx], 2, 1)"
    unfolding t1 [THEN conjunct1] up by (rule s1)
  have e2: "eval_indice_loop A234 [1] [] [kk1] [yy, Expr_int 0, xx] 0 ([], 0, 0) =
      Inr ([yy, VarE kk1, xx], 3, 1)"
    unfolding t2 [THEN conjunct1] up by (rule s2)
  have e3: "DoReduce_compute A234 lang_ReduceSum [1] [1] None [kk1] [yy, xx] =
      Inr (ir_Reduce kSum None (Load A234 [yy, VarE kk1, xx]) [kk1])"
    unfolding t1 [THEN conjunct2, THEN conjunct1] up s1 by (simp add: lang_ReduceSum_def)
  from e1 e2 e3 show ?thesis by simp
qed

subsection \<open>The reduction facade\<close>

lemma Compute_Inr:
  "fn (map VarE (GenDefaultAxis (length domain))) = Inr b \<Longrightarrow>
   Compute domain fn name = Inr (Tensor name domain (Expr_type b) (Some b))"
  by (simp add: Compute_def)

lemma Compute_shape:
  "Compute domain fn name = Inr T \<Longrightarrow>
   shape T = domain \<and> tensor_name T = name
   \<and> (\<exists>b. fn (map VarE (GenDefaultAxis (length domain))) = Inr b \<and> body T = Some b)"
  by (auto simp: Compute_def split: sum.splits)

lemma butlast_default_axes:
  "butlast (map VarE (GenDefaultAxis (Suc m))) = map VarE (GenDefaultAxis m)"
  by (simp add: GenDefaultAxis_def)

lemma length_default_axes [simp]: "length (GenDefaultAxis m) = m"
  by (simp add: GenDefaultAxis_def)

lemma DoReduce_Inr:
  assumes "DoReduce ctx tensor fn output_shape real_axes squeeze_axes initial output_name = Inr (C, ctx')"
  shows "shape C = output_shape
       \<and> (\<exists>reduce_axes eval_indice. body C = Some (fn (Load tensor eval_indice) reduce_axes initial))"
proof -
  from assms obtain reduce_axes where
    comp: "Compute output_shape
             (DoReduce_compute tensor fn real_axes squeeze_axes initial reduce_axes)
             output_name = Inr C"
    by (auto simp: DoReduce_def split: sum.splits prod.splits)
  from Compute_shape [OF comp] obtain b where
    sh: "shape C = output_shape"
    and b: "DoReduce_compute tensor fn real_axes squeeze_axes initial reduce_axes
              (map VarE (GenDefaultAxis (length output_shape))) = Inr b"
    and bd: "body C = Some b"
    by blast
  from b obtain eval_indice where "b = fn (Load tensor eval_indice) reduce_axes initial"
    by (auto simp: DoReduce_compute_def split: sum.splits prod.splits)
  with sh bd show ?thesis by blast
qed

lemma Reduce_Inr:
  assumes "Reduce ctx tensor axes fn keep_dims initial output_name = Inr (C, ctx')"
  shows "\<exists>real_axes. GetRealAxes (int (length (shape tensor))) axes [] = Inr real_axes
       \<and> shape C = GetOutputShape real_axes [] tensor keep_dims
       \<and> (\<exists>reduce_axes eval_indice.
             body C = Some (fn (Load tensor eval_indice) reduce_axes initial))"
proof -
  from assms obtain real_axes where
    ra: "GetRealAxes (int (length (shape tensor))) axes [] = Inr real_axes"
    and dr: "DoReduce ctx tensor fn (GetOutputShape real_axes [] tensor keep_dims) real_axes
              (if keep_dims then [] else real_axes) initial output_name = Inr (C, ctx')"
    by (auto simp: Reduce_def Let_def split: if_splits sum.splits)
  from DoReduce_Inr [OF dr] ra show ?thesis by blast
qed


lemma GetRealAxes_sorted:
  assumes "GetRealAxes ndim axes [] = Inr real_axes"
  shows "sorted real_axes"
proof (cases "axes = []")
  case True
  with assms show ?thesis
    by (auto simp: GetRealAxes_def push_all_dims_eq)
next
  case False
  with assms show ?thesis
    by (auto simp: GetRealAxes_def split: sum.splits)
qed









text \<open>
  The axis \<open>ndim\<close>, which the normaliser lets through, is not a dimension:
  \<^verbatim>\<open>DoReduce\<close> reads \<^verbatim>\<open>tensor->shape[ndim]\<close> for its reduction variable.
\<close>

lemma Reduce_axis_ndim: "Reduce 0 A234 [3] lang_ReduceSum False None ''B'' = Inl OutOfRange"
  by code_simp

text \<open>
  C8. Without an initial value \<^verbatim>\<open>ReduceSum\<close> passes the constant 0 of the input's
  element type to the facade and \<^verbatim>\<open>ReduceProd\<close> the constant 1; an initial value
  that the caller supplies is passed unchanged by both. The value passed is the
  identity of the fold in the tensor that is returned.
\<close>

theorem ReduceSum_ReduceProd_initial:
  "ReduceSum ctx A axes keep_dims None output_name =
     Reduce ctx A axes lang_ReduceSum keep_dims (Some (make_const (tensor_type A) 0)) output_name
   \<and> ReduceProd ctx A axes keep_dims None output_name =
     Reduce ctx A axes lang_ReduceMul keep_dims (Some (make_const (tensor_type A) 1)) output_name
   \<and> ReduceSum ctx A axes keep_dims (Some v) output_name =
     Reduce ctx A axes lang_ReduceSum keep_dims (Some v) output_name
   \<and> ReduceProd ctx A axes keep_dims (Some v) output_name =
     Reduce ctx A axes lang_ReduceMul keep_dims (Some v) output_name
   \<and> (ReduceSum ctx A axes keep_dims initial output_name = Inr (C, ctx') \<longrightarrow>
        (\<exists>reduce_axes eval_indice.
           body C = Some (ir_Reduce kSum
             (Some (case initial of None \<Rightarrow> make_const (tensor_type A) 0 | Some i \<Rightarrow> i))
             (Load A eval_indice) reduce_axes)))
   \<and> (ReduceProd ctx A axes keep_dims initial output_name = Inr (C, ctx') \<longrightarrow>
        (\<exists>reduce_axes eval_indice.
           body C = Some (ir_Reduce kMul
             (Some (case initial of None \<Rightarrow> make_const (tensor_type A) 1 | Some i \<Rightarrow> i))
             (Load A eval_indice) reduce_axes)))"
proof -
  have s0: "ReduceSum ctx A axes keep_dims None output_name =
     Reduce ctx A axes lang_ReduceSum keep_dims (Some (make_const (tensor_type A) 0)) output_name"
    by (simp add: ReduceSum_def)
  have p0: "ReduceProd ctx A axes keep_dims None output_name =
     Reduce ctx A axes lang_ReduceMul keep_dims (Some (make_const (tensor_type A) 1)) output_name"
    by (simp add: ReduceProd_def)
  have s1: "ReduceSum ctx A axes keep_dims (Some v) output_name =
     Reduce ctx A axes lang_ReduceSum keep_dims (Some v) output_name"
    by (simp add: ReduceSum_def)
  have p1: "ReduceProd ctx A axes keep_dims (Some v) output_name =
     Reduce ctx A axes lang_ReduceMul keep_dims (Some v) output_name"
    by (simp add: ReduceProd_def)
  have sb: "\<exists>reduce_axes eval_indice.
           body C = Some (ir_Reduce kSum
             (Some (case initial of None \<Rightarrow> make_const (tensor_type A) 0 | Some i \<Rightarrow> i))
             (Load A eval_indice) reduce_axes)"
    if r: "ReduceSum ctx A axes keep_dims initial output_name = Inr (C, ctx')"
  proof -
    from r have "Reduce ctx A axes lang_ReduceSum keep_dims
        (Some (case initial of None \<Rightarrow> make_const (tensor_type A) 0 | Some i \<Rightarrow> i))
        output_name = Inr (C, ctx')"
      by (cases initial) (simp_all add: ReduceSum_def)
    from Reduce_Inr [OF this] show ?thesis
      by (auto simp: lang_ReduceSum_def)
  qed
  have pb: "\<exists>reduce_axes eval_indice.
           body C = Some (ir_Reduce kMul
             (Some (case initial of None \<Rightarrow> make_const (tensor_type A) 1 | Some i \<Rightarrow> i))
             (Load A eval_indice) reduce_axes)"
    if r: "ReduceProd ctx A axes keep_dims initial output_name = Inr (C, ctx')"
  proof -
    from r have "Reduce ctx A axes lang_ReduceMul keep_dims
        (Some (case initial of None \<Rightarrow> make_const (tensor_type A) 1 | Some i \<Rightarrow> i))
        output_name = Inr (C, ctx')"
      by (cases initial) (simp_all add: ReduceProd_def)
    from Reduce_Inr [OF this] show ?thesis
      by (auto simp: lang_ReduceMul_def)
  qed
  from sb have sb': "ReduceSum ctx A axes keep_dims initial output_name = Inr (C, ctx') \<longrightarrow>
        (\<exists>reduce_axes eval_indice.
           body C = Some (ir_Reduce kSum
             (Some (case initial of None \<Rightarrow> make_const (tensor_type A) 0 | Some i \<Rightarrow> i))
             (Load A eval_indice) reduce_axes))"
    by (rule impI)
  from pb have pb': "ReduceProd ctx A axes keep_dims initial output_name = Inr (C, ctx') \<longrightarrow>
        (\<exists>reduce_axes eval_indice.
           body C = Some (ir_Reduce kMul
             (Some (case initial of None \<Rightarrow> make_const (tensor_type A) 1 | Some i \<Rightarrow> i))
             (Load A eval_indice) reduce_axes))"
    by (rule impI)
  show ?thesis
    by (rule conjI [OF s0 conjI [OF p0 conjI [OF s1 conjI [OF p1 conjI [OF sb' pb']]]]])
qed

lemma ReduceSum_returns: "\<not> isl (ReduceSum 0 A234 [1] False None ''B'')"
  by code_simp

lemma ReduceProd_returns: "\<not> isl (ReduceProd 0 A234 [1] False None ''B'')"
  by code_simp

theorem ReduceSum_ReduceProd_initial_witness:
  "(\<exists>C ctx' reduce_axes eval_indice.
      ReduceSum 0 A234 [1] False None ''B'' = Inr (C, ctx')
      \<and> body C = Some (ir_Reduce kSum (Some (IntImm (FloatT 32) 0)) (Load A234 eval_indice) reduce_axes))
   \<and> (\<exists>C ctx' reduce_axes eval_indice.
      ReduceProd 0 A234 [1] False None ''B'' = Inr (C, ctx')
      \<and> body C = Some (ir_Reduce kMul (Some (IntImm (FloatT 32) 1)) (Load A234 eval_indice) reduce_axes))"
proof -
  have ty: "make_const (tensor_type A234) 0 = IntImm (FloatT 32) 0"
    "make_const (tensor_type A234) 1 = IntImm (FloatT 32) 1"
    by (simp_all add: make_const_def A234_def)
  obtain C ctx' where s: "ReduceSum 0 A234 [1] False None ''B'' = Inr (C, ctx')"
    using ReduceSum_returns by (cases "ReduceSum 0 A234 [1] False None ''B''") auto
  obtain D ctx2' where p: "ReduceProd 0 A234 [1] False None ''B'' = Inr (D, ctx2')"
    using ReduceProd_returns by (cases "ReduceProd 0 A234 [1] False None ''B''") auto
  from s ReduceSum_ReduceProd_initial [of 0 A234 "[1]" False "''B''" undefined None C ctx']
  have "\<exists>reduce_axes eval_indice.
      body C = Some (ir_Reduce kSum (Some (IntImm (FloatT 32) 0)) (Load A234 eval_indice) reduce_axes)"
    by (simp add: ty)
  moreover
  from p ReduceSum_ReduceProd_initial [of 0 A234 "[1]" False "''B''" undefined None D ctx2']
  have "\<exists>reduce_axes eval_indice.
      body D = Some (ir_Reduce kMul (Some (IntImm (FloatT 32) 1)) (Load A234 eval_indice) reduce_axes)"
    by (simp add: ty)
  ultimately show ?thesis
    using s p by blast
qed

text \<open>
  C10. \<^verbatim>\<open>ReduceMax\<close> and \<^verbatim>\<open>ReduceMin\<close> do not depend on their initial-value
  argument: for any two initial values the results are equal, since both call the
  facade with the undefined identity.
\<close>

theorem ReduceMax_ReduceMin_ignore_initial:
  "ReduceMax ctx A axes keep_dims initial output_name =
     ReduceMax ctx A axes keep_dims initial' output_name
   \<and> ReduceMin ctx A axes keep_dims initial output_name =
     ReduceMin ctx A axes keep_dims initial' output_name
   \<and> ReduceMax ctx A axes keep_dims initial output_name =
     Reduce ctx A axes lang_ReduceMax keep_dims None output_name
   \<and> ReduceMin ctx A axes keep_dims initial output_name =
     Reduce ctx A axes lang_ReduceMin keep_dims None output_name"
  by (simp add: ReduceMax_def ReduceMin_def)

subsection \<open>Warp reduction\<close>

lemma push_zeros_eq:
  "push_zeros idx k tmp_indexs = tmp_indexs @ replicate (nat (k - idx)) (Expr_int 0)"
proof (induction idx k tmp_indexs rule: push_zeros.induct)
  case (1 idx k tmp_indexs)
  show ?case
  proof (cases "idx < k")
    case True
    then have "nat (k - idx) = Suc (nat (k - (idx + 1)))"
      by simp
    with True 1 show ?thesis
      by (simp add: push_zeros.simps [of idx] replicate_app_Cons_same)
  next
    case False
    then show ?thesis
      by (simp add: push_zeros.simps [of idx])
  qed
qed

lemma lane_loop_returns_bound:
  "lane_loop A k idx lane = Inr l \<Longrightarrow> size_t (int (length (shape A)) - k) \<noteq> 0"
proof (induction A k idx lane rule: lane_loop.induct)
  case (1 A k idx lane)
  show ?case
  proof (cases "size_t idx \<ge> size_t (int (length (shape A)) - k)")
    case False
    moreover have "0 \<le> size_t idx"
      by (simp add: size_t_def)
    ultimately show ?thesis by linarith
  next
    case True
    with "1.prems" obtain v where
      rng: "0 \<le> idx \<and> idx < int (length (shape A))"
      and v: "as_int32 (shape A ! nat idx) = Inr v"
      and rec: "lane_loop A k (idx - 1) (Mul lane (Expr_int v)) = Inr l"
      by (auto simp: lane_loop.simps [of A k idx] split: if_splits sum.splits)
    from "1.IH" [OF True rng v rec] show ?thesis .
  qed
qed

lemma lane_loop_trailing:
  assumes m: "0 < m" "m + length sizes = length (shape A)" "length (shape A) < 2 ^ 64"
    and trail: "drop m (shape A) = map Expr_int sizes"
    and j: "j \<le> length sizes"
  shows "lane_loop A (int (length sizes)) (int m + int j - 1) lane =
           Inr (foldl Mul lane (rev (take j (drop m (shape A)))))"
  using j
proof (induction j arbitrary: lane)
  case 0
  have b: "int (length (shape A)) - int (length sizes) = int m"
    using m by simp
  have "size_t (int m - 1) = int m - 1" "size_t (int m) = int m"
    using m by (simp_all add: size_t_def)
  then show ?case
    by (subst lane_loop.simps) (simp add: b)
next
  case (Suc j)
  have b: "int (length (shape A)) - int (length sizes) = int m"
    using m by simp
  have idx: "int m + int (Suc j) - 1 = int m + int j"
    by simp
  have st: "size_t (int m + int j) = int m + int j" "size_t (int m) = int m"
    using m Suc.prems by (simp_all add: size_t_def)
  have rng: "m + j < length (shape A)"
    using m Suc.prems by simp
  have nat_idx: "nat (int m + int j) = m + j"
    by simp
  have nth: "shape A ! (m + j) = Expr_int (sizes ! j)"
  proof -
    have "shape A ! (m + j) = drop m (shape A) ! j"
      using rng by simp
    also have "\<dots> = Expr_int (sizes ! j)"
      using Suc.prems by (simp add: trail)
    finally show ?thesis .
  qed
  have tk: "take (Suc j) (drop m (shape A)) = take j (drop m (shape A)) @ [Expr_int (sizes ! j)]"
    using Suc.prems by (simp add: trail take_Suc_conv_app_nth)
  have v: "as_int32 (Expr_int (sizes ! j)) = Inr (sizes ! j)"
    by (simp add: Expr_int_def)
  have "lane_loop A (int (length sizes)) (int m + int j) lane =
        lane_loop A (int (length sizes)) (int m + int j - 1) (Mul lane (Expr_int (sizes ! j)))"
    using rng by (subst lane_loop.simps) (simp add: b st nat_idx nth v del: of_nat_add)
  also have "\<dots> = Inr (foldl Mul (Mul lane (Expr_int (sizes ! j))) (rev (take j (drop m (shape A)))))"
    using Suc.prems by (intro Suc.IH) simp
  finally show ?case
    unfolding idx tk by simp
qed

lemma eval_foldl_Mul:
  "eval \<rho> (foldl Mul l xs) = eval \<rho> l * prod_list (map (eval \<rho>) xs)"
  by (induction xs arbitrary: l) (simp_all add: mult.assoc)

lemma eval_foldl_Add:
  "eval \<rho> (foldl Add t ts) = eval \<rho> t + sum_list (map (eval \<rho>) ts)"
  by (induction ts arbitrary: t) (simp_all add: add.assoc)

lemma eval_indice_prod:
  "eval \<rho> (indice_prod e ds) = eval \<rho> e * prod_list (map (eval \<rho>) ds)"
  by (induction ds arbitrary: e) (simp_all add: mult.assoc)

lemma eval_IndiceToAbsOffset:
  "eval \<rho> (IndiceToAbsOffset shp indices) = sum_list (map (eval \<rho>) (offset_terms shp indices))"
  by (cases "offset_terms shp indices")
     (simp_all add: IndiceToAbsOffset_def Expr_int_def eval_foldl_Add)

lemma offset_terms_zero:
  "\<forall>t \<in> set (offset_terms ds (replicate k (Expr_int 0))). eval \<rho> t = 0"
proof (induction ds arbitrary: k)
  case Nil
  then show ?case by simp
next
  case (Cons d ds)
  then show ?case
    by (cases k) (simp_all add: eval_indice_prod Expr_int_def)
qed

lemma offset_terms_lane:
  assumes "length ls = length li"
  shows "\<forall>t \<in> set (offset_terms (ls @ trail) (li @ replicate k (Expr_int 0))).
           prod_list (map (eval \<rho>) trail) dvd eval \<rho> t"
  using assms
proof (induction ls li rule: list_induct2)
  case Nil
  then show ?case
    using offset_terms_zero [of trail k \<rho>] by simp
next
  case (Cons d ls i li)
  then show ?case
    by (simp add: eval_indice_prod)
qed

lemma dvd_sum_list_all:
  fixes d :: int
  shows "\<forall>x \<in> set xs. d dvd x \<Longrightarrow> d dvd sum_list xs"
  by (induction xs) simp_all

lemma offset_multiple_of_lane:
  assumes "length ls = length li"
  shows "prod_list (map (eval \<rho>) trail) dvd
           eval \<rho> (IndiceToAbsOffset (ls @ trail) (li @ replicate k (Expr_int 0)))"
  unfolding eval_IndiceToAbsOffset
  using offset_terms_lane [OF assms, of trail k \<rho>]
  by (intro dvd_sum_list_all) auto

lemma WarpReduce_tmp_compute_call:
  assumes "0 \<le> k" "nat k \<le> length (shape A)"
    and "length indexs = Suc (length (shape A) - nat k)"
  shows "WarpReduce_tmp_compute proto A k reduce_type lane indexs =
           Inr (Call (proto reduce_type) reduce_type
                  [TensorE A,
                   IndiceToAbsOffset (shape A) (butlast indexs @ replicate (nat k) (Expr_int 0)),
                   lane])"
proof -
  from assms have ne: "indexs \<noteq> []"
    by auto
  from assms have len: "length (shape A) = length (butlast indexs) + nat k"
    by simp
  show ?thesis
    using ne len by (simp add: WarpReduce_tmp_compute_def push_zeros_eq CallExtern_def)
qed

lemma WarpReduce_Inr:
  assumes k: "0 \<le> k" "k < int (length (shape A))"
    and size: "length (shape A) < 2 ^ 64"
    and trail: "drop (length (shape A) - nat k) (shape A) = map Expr_int sizes"
  shows "WarpReduce ctx proto A k reduce_type output_name =
     Inr ([Tensor (output_name @ ''_'' @ digits (Suc ctx))
             (take (length (shape A) - nat k) (shape A))
             (proto reduce_type)
             (Some (Load
                (Tensor ((output_name @ ''_'' @ reduce_type) @ ''_'' @ digits ctx)
                   (take (length (shape A) - nat k) (shape A) @ [Expr_int 32])
                   (proto reduce_type)
                   (Some (Call (proto reduce_type) reduce_type
                      [TensorE A,
                       IndiceToAbsOffset (shape A)
                         (map VarE (GenDefaultAxis (length (shape A) - nat k))
                            @ replicate (nat k) (Expr_int 0)),
                       foldl Mul (Expr_int 1) (rev (map Expr_int sizes))])))
                (map VarE (GenDefaultAxis (length (shape A) - nat k)) @ [Expr_int 0]))),
           Tensor ((output_name @ ''_'' @ reduce_type) @ ''_'' @ digits ctx)
             (take (length (shape A) - nat k) (shape A) @ [Expr_int 32])
             (proto reduce_type)
             (Some (Call (proto reduce_type) reduce_type
                [TensorE A,
                 IndiceToAbsOffset (shape A)
                   (map VarE (GenDefaultAxis (length (shape A) - nat k))
                      @ replicate (nat k) (Expr_int 0)),
                 foldl Mul (Expr_int 1) (rev (map Expr_int sizes))]))],
          Suc (Suc ctx))"
proof -
  let ?n = "length (shape A)"
  let ?m = "?n - nat k"
  let ?lane = "foldl Mul (Expr_int 1) (rev (map Expr_int sizes))"
  have nk: "nat k < ?n"
    using k by simp
  have len_sizes: "length sizes = nat k"
  proof -
    have "length (map Expr_int sizes) = length (drop ?m (shape A))"
      by (simp add: trail)
    then show ?thesis using nk by simp
  qed
  have m_pos: "0 < ?m"
    using nk by simp
  have m_sum: "?m + length sizes = ?n"
    using nk len_sizes by simp
  have k_int: "int (length sizes) = k"
    using k len_sizes by simp
  have start: "int ?m + k - 1 = int ?n - 1"
    using k by simp
  have lane: "lane_loop A k (int ?n - 1) (Expr_int 1) = Inr ?lane"
  proof -
    have "lane_loop A (int (length sizes)) (int ?m + int (length sizes) - 1) (Expr_int 1) =
        Inr (foldl Mul (Expr_int 1) (rev (take (length sizes) (drop ?m (shape A)))))"
      using m_pos m_sum size trail by (rule lane_loop_trailing) simp
    then show ?thesis
      unfolding k_int start by (simp add: trail)
  qed
  have "nat (int ?n - k) = ?m"
    using k by linarith
  then have lead: "leading_dims A k = Inr (take ?m (shape A))"
    using k by (simp add: leading_dims_def)
  have axes_len: "length (map VarE (GenDefaultAxis (Suc ?m))) = Suc (?n - nat k)"
    by simp
  have tmp_body:
    "WarpReduce_tmp_compute proto A k reduce_type ?lane (map VarE (GenDefaultAxis (Suc ?m))) =
       Inr (Call (proto reduce_type) reduce_type
              [TensorE A,
               IndiceToAbsOffset (shape A)
                 (map VarE (GenDefaultAxis ?m) @ replicate (nat k) (Expr_int 0)),
               ?lane])"
    using WarpReduce_tmp_compute_call [OF k(1) _ axes_len, of proto reduce_type ?lane] nk
    by (simp only: butlast_default_axes)
  have tmp: "\<And>nm. Compute (take ?m (shape A) @ [Expr_int 32])
               (WarpReduce_tmp_compute proto A k reduce_type ?lane) nm =
      Inr (Tensor nm (take ?m (shape A) @ [Expr_int 32]) (proto reduce_type)
             (Some (Call (proto reduce_type) reduce_type
                [TensorE A,
                 IndiceToAbsOffset (shape A)
                   (map VarE (GenDefaultAxis ?m) @ replicate (nat k) (Expr_int 0)),
                 ?lane])))"
  proof -
    fix nm
    have l: "length (take ?m (shape A) @ [Expr_int 32]) = Suc ?m"
      by simp
    show "Compute (take ?m (shape A) @ [Expr_int 32])
               (WarpReduce_tmp_compute proto A k reduce_type ?lane) nm =
      Inr (Tensor nm (take ?m (shape A) @ [Expr_int 32]) (proto reduce_type)
             (Some (Call (proto reduce_type) reduce_type
                [TensorE A,
                 IndiceToAbsOffset (shape A)
                   (map VarE (GenDefaultAxis ?m) @ replicate (nat k) (Expr_int 0)),
                 ?lane])))"
      using Compute_Inr [of "WarpReduce_tmp_compute proto A k reduce_type ?lane"
          "take ?m (shape A) @ [Expr_int 32]", unfolded l, OF tmp_body]
      by simp
  qed
  have out: "\<And>T nm. Compute (take ?m (shape A)) (WarpReduce_out_compute T) nm =
      Inr (Tensor nm (take ?m (shape A)) (tensor_type T)
             (Some (Load T (map VarE (GenDefaultAxis ?m) @ [Expr_int 0]))))"
    by (simp add: Compute_def WarpReduce_out_compute_def)
  show ?thesis
    unfolding WarpReduce_def lane lead UniqName_def
    by (simp add: tmp out)
qed

lemma prod_list_rev_int: "prod_list (rev xs) = prod_list (xs :: int list)"
  by (induction xs) (simp_all add: mult.commute)

lemma eval_Expr_int [simp]: "eval \<rho> (Expr_int v) = v"
  by (simp add: Expr_int_def)

lemma eval_lane:
  "eval \<rho> (foldl Mul (Expr_int 1) (rev (map Expr_int sizes))) = prod_list sizes"
proof -
  have "map (eval \<rho>) (map Expr_int sizes) = sizes"
    by (induction sizes) simp_all
  then show ?thesis
    by (simp add: eval_foldl_Mul rev_map [symmetric] prod_list_rev_int del: rev_map)
qed

lemma offset_multiple_of_sizes:
  assumes k: "0 \<le> k" "k < int (length (shape A))"
    and trail: "drop (length (shape A) - nat k) (shape A) = map Expr_int sizes"
    and len: "length li = length (shape A) - nat k"
  shows "prod_list sizes dvd
           eval \<rho> (IndiceToAbsOffset (shape A) (li @ replicate (nat k) (Expr_int 0)))"
proof -
  let ?m = "length (shape A) - nat k"
  have split: "shape A = take ?m (shape A) @ map Expr_int sizes"
    using trail append_take_drop_id [of ?m "shape A"] by simp
  have l: "length (take ?m (shape A)) = length li"
    using len by simp
  have ev: "map (eval \<rho>) (map Expr_int sizes) = sizes"
    by (induction sizes) simp_all
  from offset_multiple_of_lane [OF l, of \<rho> "map Expr_int sizes" "nat k"]
  show ?thesis
    unfolding ev split [symmetric] .
qed

lemma WarpReduce_Inr_parts:
  assumes "WarpReduce ctx proto A k reduce_type output_name = Inr (ts, ctx')"
  shows "\<exists>lane tmp_shape out tmp_out.
           lane_loop A k (int (length (shape A)) - 1) (Expr_int 1) = Inr lane
         \<and> leading_dims A k = Inr tmp_shape
         \<and> ts = [out, tmp_out]
         \<and> shape tmp_out = tmp_shape @ [Expr_int 32]
         \<and> shape out = tmp_shape"
proof -
  from assms obtain lane tmp_shape tmp_out out nm1 nm2 where
    l: "lane_loop A k (int (length (shape A)) - 1) (Expr_int 1) = Inr lane"
    and ld: "leading_dims A k = Inr tmp_shape"
    and c1: "Compute (tmp_shape @ [Expr_int 32])
               (WarpReduce_tmp_compute proto A k reduce_type lane) nm1 = Inr tmp_out"
    and c2: "Compute tmp_shape (WarpReduce_out_compute tmp_out) nm2 = Inr out"
    and ts: "ts = [out, tmp_out]"
    by (auto simp: WarpReduce_def split: sum.splits prod.splits)
  from Compute_shape [OF c1] Compute_shape [OF c2] l ld ts show ?thesis
    by blast
qed

text \<open>
  C6. For a tensor whose trailing \<open>k\<close> sizes are integer constants, with
  \<open>0 \<le> k < rank\<close>, \<^verbatim>\<open>WarpReduce\<close> returns the pair \<open>out\<close>, \<open>tmp_out\<close>. The shape of
  \<open>tmp_out\<close> is the leading dimensions followed by 32, and its element at an index
  tuple is the call of the function named \<open>reduce_type\<close> with the tensor, the
  flattened offset of the leading indices followed by \<open>k\<close> zeros, and the lane
  expression. The shape of \<open>out\<close> is the leading dimensions, and its element reads
  \<open>tmp_out\<close> at the same indices followed by 0.
\<close>

theorem WarpReduce_tensors:
  assumes k: "0 \<le> k" "k < int (length (shape A))"
    and size: "length (shape A) < 2 ^ 64"
    and trail: "drop (length (shape A) - nat k) (shape A) = map Expr_int sizes"
  shows "\<exists>out tmp_out ctx'.
      WarpReduce ctx proto A k reduce_type output_name = Inr ([out, tmp_out], ctx')
    \<and> shape tmp_out = take (length (shape A) - nat k) (shape A) @ [Expr_int 32]
    \<and> body tmp_out =
        Some (Call (proto reduce_type) reduce_type
                [TensorE A,
                 IndiceToAbsOffset (shape A)
                   (map VarE (GenDefaultAxis (length (shape A) - nat k))
                      @ replicate (nat k) (Expr_int 0)),
                 foldl Mul (Expr_int 1) (rev (map Expr_int sizes))])
    \<and> (\<forall>indexs. length indexs = length (shape tmp_out) \<longrightarrow>
          WarpReduce_tmp_compute proto A k reduce_type
              (foldl Mul (Expr_int 1) (rev (map Expr_int sizes))) indexs =
            Inr (Call (proto reduce_type) reduce_type
                   [TensorE A,
                    IndiceToAbsOffset (shape A)
                      (butlast indexs @ replicate (nat k) (Expr_int 0)),
                    foldl Mul (Expr_int 1) (rev (map Expr_int sizes))]))
    \<and> shape out = take (length (shape A) - nat k) (shape A)
    \<and> body out =
        Some (Load tmp_out
                (map VarE (GenDefaultAxis (length (shape A) - nat k)) @ [Expr_int 0]))
    \<and> (\<forall>indexs. WarpReduce_out_compute tmp_out indexs =
                   Inr (Load tmp_out (indexs @ [Expr_int 0])))"
proof -
  have nk: "nat k \<le> length (shape A)"
    using k by simp
  have call: "\<And>indexs lane. length indexs = Suc (length (shape A) - nat k) \<Longrightarrow>
      WarpReduce_tmp_compute proto A k reduce_type lane indexs =
        Inr (Call (proto reduce_type) reduce_type
               [TensorE A,
                IndiceToAbsOffset (shape A) (butlast indexs @ replicate (nat k) (Expr_int 0)),
                lane])"
    using k(1) nk by (rule WarpReduce_tmp_compute_call)
  show ?thesis
    unfolding WarpReduce_Inr [OF k size trail]
    by (simp add: call WarpReduce_out_compute_def)
qed

theorem WarpReduce_tensors_witness:
  "\<exists>out tmp_out ctx'.
      WarpReduce 0 float_proto A864 1 ''cinn_warp_reduce_max'' ''B'' = Inr ([out, tmp_out], ctx')
    \<and> shape tmp_out = [Expr_int 8, Expr_int 32]
    \<and> shape out = [Expr_int 8]
    \<and> body out = Some (Load tmp_out (map VarE (GenDefaultAxis 1) @ [Expr_int 0]))"
proof -
  have k: "(0::int) \<le> 1" "1 < int (length (shape A864))"
    by (simp_all add: A864_def)
  have size: "length (shape A864) < 2 ^ 64"
    by (simp add: A864_def)
  have trail: "drop (length (shape A864) - nat 1) (shape A864) = map Expr_int [64]"
    by (simp add: A864_def)
  have lead: "take (length (shape A864) - nat 1) (shape A864) = [Expr_int 8]"
    by (simp add: A864_def)
  have m: "length (shape A864) - nat 1 = 1"
    by (simp add: A864_def)
  from WarpReduce_tensors [OF k size trail, of 0 float_proto "''cinn_warp_reduce_max''" "''B''"]
  obtain out tmp_out ctx' where
    r: "WarpReduce 0 float_proto A864 1 ''cinn_warp_reduce_max'' ''B'' = Inr ([out, tmp_out], ctx')"
    and st: "shape tmp_out = take (length (shape A864) - nat 1) (shape A864) @ [Expr_int 32]"
    and so: "shape out = take (length (shape A864) - nat 1) (shape A864)"
    and bo: "body out = Some (Load tmp_out
               (map VarE (GenDefaultAxis (length (shape A864) - nat 1)) @ [Expr_int 0]))"
    by blast
  have st': "shape tmp_out = [Expr_int 8, Expr_int 32]"
    using st unfolding lead by simp
  have so': "shape out = [Expr_int 8]"
    using so unfolding lead .
  have bo': "body out = Some (Load tmp_out (map VarE (GenDefaultAxis 1) @ [Expr_int 0]))"
    using bo unfolding m .
  from r st' so' bo' show ?thesis by blast
qed

text \<open>
  C7. Under the same conditions the lane expression of every call has the value of
  the product of the trailing \<open>k\<close> sizes, and the offset of every call is a multiple
  of it, for every value of the index variables. For the shape \<open>[8, 64]\<close> and
  \<open>k = 1\<close> the lane is 64, \<open>tmp_out\<close> has the shape \<open>[8, 32]\<close> and \<open>out\<close> the
  shape \<open>[8]\<close>.
\<close>

theorem WarpReduce_lane:
  assumes k: "0 \<le> k" "k < int (length (shape A))"
    and size: "length (shape A) < 2 ^ 64"
    and trail: "drop (length (shape A) - nat k) (shape A) = map Expr_int sizes"
  shows "\<exists>out tmp_out offset lane ctx'.
      WarpReduce ctx proto A k reduce_type output_name = Inr ([out, tmp_out], ctx')
    \<and> body tmp_out = Some (Call (proto reduce_type) reduce_type [TensorE A, offset, lane])
    \<and> (\<forall>\<rho>. eval \<rho> lane = prod_list sizes)
    \<and> (\<forall>\<rho>. prod_list sizes dvd eval \<rho> offset)
    \<and> (\<forall>indexs. length indexs = length (shape tmp_out) \<longrightarrow>
          (\<exists>offset'. WarpReduce_tmp_compute proto A k reduce_type lane indexs =
                Inr (Call (proto reduce_type) reduce_type [TensorE A, offset', lane])
             \<and> (\<forall>\<rho>. prod_list sizes dvd eval \<rho> offset')))
    \<and> shape tmp_out = take (length (shape A) - nat k) (shape A) @ [Expr_int 32]
    \<and> shape out = take (length (shape A) - nat k) (shape A)"
proof -
  let ?m = "length (shape A) - nat k"
  have nk: "nat k \<le> length (shape A)"
    using k by simp
  have call: "\<And>indexs lane. length indexs = Suc ?m \<Longrightarrow>
      WarpReduce_tmp_compute proto A k reduce_type lane indexs =
        Inr (Call (proto reduce_type) reduce_type
               [TensorE A,
                IndiceToAbsOffset (shape A) (butlast indexs @ replicate (nat k) (Expr_int 0)),
                lane])"
    using k(1) nk by (rule WarpReduce_tmp_compute_call)
  have dvd: "\<And>li \<rho>. length li = ?m \<Longrightarrow>
      prod_list sizes dvd
        eval \<rho> (IndiceToAbsOffset (shape A) (li @ replicate (nat k) (Expr_int 0)))"
    using k trail by (rule offset_multiple_of_sizes)
  show ?thesis
    unfolding WarpReduce_Inr [OF k size trail]
    by (simp add: call dvd eval_lane)
qed

theorem WarpReduce_lane_witness:
  "\<exists>out tmp_out offset lane ctx'.
      WarpReduce 0 float_proto A864 1 ''cinn_warp_reduce_sum'' ''B'' = Inr ([out, tmp_out], ctx')
    \<and> body tmp_out = Some (Call (FloatT 32) ''cinn_warp_reduce_sum'' [TensorE A864, offset, lane])
    \<and> (\<forall>\<rho>. eval \<rho> lane = 64)
    \<and> (\<forall>\<rho>. 64 dvd eval \<rho> offset)
    \<and> shape tmp_out = [Expr_int 8, Expr_int 32]
    \<and> shape out = [Expr_int 8]"
proof -
  have k: "(0::int) \<le> 1" "1 < int (length (shape A864))"
    by (simp_all add: A864_def)
  have size: "length (shape A864) < 2 ^ 64"
    by (simp add: A864_def)
  have trail: "drop (length (shape A864) - nat 1) (shape A864) = map Expr_int [64]"
    by (simp add: A864_def)
  have lead: "take (length (shape A864) - nat 1) (shape A864) = [Expr_int 8]"
    by (simp add: A864_def)
  have p: "prod_list [64::int] = 64"
    by simp
  from WarpReduce_lane [OF k size trail, of 0 float_proto "''cinn_warp_reduce_sum''" "''B''"]
  obtain out tmp_out offset lane ctx' where
    r: "WarpReduce 0 float_proto A864 1 ''cinn_warp_reduce_sum'' ''B'' = Inr ([out, tmp_out], ctx')"
    and b: "body tmp_out = Some (Call (float_proto ''cinn_warp_reduce_sum'')
               ''cinn_warp_reduce_sum'' [TensorE A864, offset, lane])"
    and l: "\<forall>\<rho>. eval \<rho> lane = prod_list [64]"
    and d: "\<forall>\<rho>. prod_list [64] dvd eval \<rho> offset"
    and st: "shape tmp_out = take (length (shape A864) - nat 1) (shape A864) @ [Expr_int 32]"
    and so: "shape out = take (length (shape A864) - nat 1) (shape A864)"
    by blast
  have b': "body tmp_out =
      Some (Call (FloatT 32) ''cinn_warp_reduce_sum'' [TensorE A864, offset, lane])"
    using b by (simp add: float_proto_def)
  have l': "\<forall>\<rho>. eval \<rho> lane = 64"
    using l by simp
  have d': "\<forall>\<rho>. 64 dvd eval \<rho> offset"
    using d by simp
  have st': "shape tmp_out = [Expr_int 8, Expr_int 32]"
    using st unfolding lead by simp
  have so': "shape out = [Expr_int 8]"
    using so unfolding lead .
  from r b' l' d' st' so' show ?thesis by blast
qed

subsection \<open>Result shapes\<close>




end
